theory Spec2Isabelle
  imports Main
begin

section \<open>The knowledge chunking service\<close>

text \<open>
  A shallow embedding of \<^verbatim>\<open>backend/services/knowledge_chunking_service.py\<close>.
  The class body of \<^verbatim>\<open>KnowledgeChunkingService\<close> defines most of its methods twice.
  Python binds a method name to the last definition in the class body, so the methods
  that run are \<^verbatim>\<open>__init__\<close> and \<^verbatim>\<open>_parse_structured_response\<close> (defined once, lines
  26-33 and 133-174) and the second definitions of all the others (lines 334-555).
  The definitions below embed these. The shadowed first definitions of the aggregator,
  the renderer and the writer (lines 240-320) are embedded as well, under names ending
  in \<open>_first\<close>, to compare the two.
\<close>

subsection \<open>Python values and exceptions\<close>

text \<open>
  The values a JSON document holds, which are also the values of the dictionaries the
  service passes around. Floating point numbers are left out: no value the service
  builds is one. A dictionary is an association list in insertion order.
\<close>

datatype json =
    JNull
  | JBool bool
  | JInt int
  | JStr string
  | JList "json list"
  | JDict "(string \<times> json) list"

text \<open>
  An exception is a value: the class name and the message \<^verbatim>\<open>str(e)\<close>. Only classes derived
  from \<^verbatim>\<open>Exception\<close> are modelled; they are what \<^verbatim>\<open>except Exception\<close> catches.
\<close>

datatype exn = Exn (exn_class: string) (exn_message: string)

text \<open>\<^verbatim>\<open>d.get(k, default)\<close> on a dictionary.\<close>

definition dict_get :: "(string \<times> 'v) list \<Rightarrow> string \<Rightarrow> 'v \<Rightarrow> 'v" where
  "dict_get d k dflt = (case map_of d k of None \<Rightarrow> dflt | Some v \<Rightarrow> v)"

text \<open>
  \<^verbatim>\<open>d[k] = v\<close>: an existing key keeps its position and takes the new value, a new key
  goes to the end. \<^verbatim>\<open>d.update(other)\<close> stores the items of \<^verbatim>\<open>other\<close> in their order.
\<close>

fun dict_set :: "(string \<times> 'v) list \<Rightarrow> string \<Rightarrow> 'v \<Rightarrow> (string \<times> 'v) list" where
  "dict_set [] k v = [(k, v)]"
| "dict_set ((k', v') # d) k v = (if k' = k then (k, v) # d else (k', v') # dict_set d k v)"

definition dict_update :: "(string \<times> 'v) list \<Rightarrow> (string \<times> 'v) list \<Rightarrow> (string \<times> 'v) list" where
  "dict_update d other = foldl (\<lambda>acc (k, v). dict_set acc k v) d other"

text \<open>
  \<^verbatim>\<open>xs[i:j]\<close> on a list: a negative index counts from the end, and both indices are
  clamped to the list.
\<close>

definition py_slice :: "'a list \<Rightarrow> int \<Rightarrow> int \<Rightarrow> 'a list" where
  "py_slice xs i j =
     (let n = int (length xs);
          lo = (if i < 0 then max 0 (i + n) else min i n);
          hi = (if j < 0 then max 0 (j + n) else min j n)
      in drop (nat lo) (take (nat hi) xs))"

text \<open>
  \<^verbatim>\<open>list(set(xs))\<close>: the distinct elements of \<open>xs\<close>, in the order of Python's hash table.
  That order is not specified; the model lists them by first occurrence, and every
  theorem below reads the result through \<^const>\<open>set\<close>, \<^const>\<open>distinct\<close> and \<^const>\<open>length\<close> only.
\<close>

definition list_of_set :: "string list \<Rightarrow> string list" where
  "list_of_set xs = remdups xs"

subsection \<open>Python strings\<close>

text \<open>
  A string that the service only stores, compares, joins or writes is a list of 8-bit
  characters: the bytes of the text in UTF-8. The response parser calls \<^verbatim>\<open>strip\<close> and
  \<^verbatim>\<open>upper\<close>, which work on the code points of a \<^verbatim>\<open>str\<close>, so the parser reads its text as
  the list of its code points.
\<close>

definition newline :: char where
  "newline = CHR 0x0A"

type_synonym unicode = "nat list"

text \<open>The code points of an ASCII literal.\<close>

definition ascii :: "string \<Rightarrow> unicode" where
  "ascii s = map of_char s"

text \<open>\<^verbatim>\<open>s.split(sep)\<close> for a separator of one character: one piece more than separators.\<close>

fun split_on :: "'a \<Rightarrow> 'a list \<Rightarrow> 'a list list" where
  "split_on c [] = [[]]"
| "split_on c (x # xs) =
     (if x = c then [] # split_on c xs
      else (case split_on c xs of [] \<Rightarrow> [[x]] | l # ls \<Rightarrow> (x # l) # ls))"

definition startswith :: "'a list \<Rightarrow> 'a list \<Rightarrow> bool" where
  "startswith s p = (take (length p) s = p)"

text \<open>
  \<^verbatim>\<open>s.strip()\<close> removes the leading and trailing characters for which \<^verbatim>\<open>str.isspace\<close>
  holds: the ASCII white space U+0009 to U+000D and U+001C to U+0020, and U+0085, U+00A0,
  U+1680, U+2000 to U+200A, U+2028, U+2029, U+202F, U+205F and U+3000.
\<close>

definition is_whitespace :: "nat \<Rightarrow> bool" where
  "is_whitespace c =
     ((0x09 \<le> c \<and> c \<le> 0x0D) \<or> (0x1C \<le> c \<and> c \<le> 0x20) \<or> c = 0x85 \<or> c = 0xA0
      \<or> c = 0x1680 \<or> (0x2000 \<le> c \<and> c \<le> 0x200A) \<or> c = 0x2028 \<or> c = 0x2029
      \<or> c = 0x202F \<or> c = 0x205F \<or> c = 0x3000)"

definition strip :: "unicode \<Rightarrow> unicode" where
  "strip s = rev (dropWhile is_whitespace (rev (dropWhile is_whitespace s)))"

text \<open>
  \<^verbatim>\<open>s.upper()\<close> replaces every code point by its full uppercase mapping, whatever stands
  around it, and concatenates: one code point gives one to three (U+00DF gives \<^verbatim>\<open>SS\<close>),
  and some code points outside ASCII give an ASCII letter (U+0131 gives \<^verbatim>\<open>I\<close>, U+017F gives
  \<^verbatim>\<open>S\<close>). The mapping is a table of the Unicode database that the interpreter was built
  with; it is the parameter \<open>to_upper\<close>, and what is proved holds for every table.
\<close>

definition upper :: "(nat \<Rightarrow> unicode) \<Rightarrow> unicode \<Rightarrow> unicode" where
  "upper to_upper s = concat (map to_upper s)"

text \<open>
  What every version of the table does on ASCII: a lower-case letter gives its capital,
  any other ASCII character itself.
\<close>

definition ascii_upper_table :: "(nat \<Rightarrow> unicode) \<Rightarrow> bool" where
  "ascii_upper_table to_upper =
     (\<forall>c < 128. to_upper c = [if 97 \<le> c \<and> c \<le> 122 then c - 32 else c])"

text \<open>A table for examples: ASCII, and the three code points named above.\<close>

definition sample_table :: "nat \<Rightarrow> unicode" where
  "sample_table c =
     (if c < 128 then [if 97 \<le> c \<and> c \<le> 122 then c - 32 else c]
      else if c = 0x131 then [0x49]
      else if c = 0x17F then [0x53]
      else if c = 0xDF then [0x53, 0x53]
      else [c])"

text \<open>\<^verbatim>\<open>str(n)\<close> for an integer.\<close>

definition digit_char :: "nat \<Rightarrow> char" where
  "digit_char d = char_of (48 + d)"

fun str_nat :: "nat \<Rightarrow> string" where
  "str_nat n = (if n < 10 then [digit_char n] else str_nat (n div 10) @ [digit_char (n mod 10)])"

declare str_nat.simps [simp del]

definition str_int :: "int \<Rightarrow> string" where
  "str_int i = (if i < 0 then CHR ''-'' # str_nat (nat (- i)) else str_nat (nat i))"

text \<open>\<^verbatim>\<open>sep.join(pieces)\<close>.\<close>

fun join :: "string \<Rightarrow> string list \<Rightarrow> string" where
  "join sep [] = []"
| "join sep [x] = x"
| "join sep (x # y # ys) = x @ sep @ join sep (y # ys)"

subsection \<open>The service object\<close>

text \<open>
  The tokenizer (\<^verbatim>\<open>tiktoken\<close>) is a library: its two functions are parameters.
  The fields of the service are those \<^verbatim>\<open>__init__\<close> sets (lines 26-33) and the claims read.
  \<^verbatim>\<open>__init__\<close> sets no attribute \<^verbatim>\<open>agent\<close>; a caller may set one later, so the field is
  optional and \<open>None\<close> stands for the missing attribute.
\<close>

record 'tok encoding =
  encode :: "string \<Rightarrow> 'tok list"
  decode :: "'tok list \<Rightarrow> string"

record service =
  max_tokens_per_chunk :: int
  overlap_tokens :: int
  processed_knowledge :: json
  agent :: "(string \<Rightarrow> exn + json) option"

definition init_service :: service where
  "init_service =
     \<lparr>max_tokens_per_chunk = 8000, overlap_tokens = 200,
      processed_knowledge = JDict [], agent = None\<rparr>"

subsection \<open>\<^verbatim>\<open>chunk_knowledge_base\<close> (lines 338-363)\<close>

text \<open>
  The \<^verbatim>\<open>while\<close> loop, with its state \<^verbatim>\<open>start_idx\<close> and \<^verbatim>\<open>chunks\<close>. The loop need not end,
  so the function is partial: \<open>None\<close> means that the loop never leaves.
\<close>

partial_function (option) chunk_loop ::
  "int \<Rightarrow> int \<Rightarrow> ('tok list \<Rightarrow> string) \<Rightarrow> 'tok list \<Rightarrow> int \<Rightarrow> string list
     \<Rightarrow> string list option" where
  "chunk_loop mx ov dec tokens start_idx chunks =
     (if start_idx < int (length tokens) then
        (let end_idx = min (start_idx + mx) (int (length tokens));
             chunk_tokens = py_slice tokens start_idx end_idx;
             chunk_text = dec chunk_tokens;
             chunks' = chunks @ [chunk_text];
             start_idx' = end_idx - ov
         in if start_idx' \<ge> int (length tokens) then Some chunks'
            else chunk_loop mx ov dec tokens start_idx' chunks')
      else Some chunks)"

definition chunk_knowledge_base ::
  "'tok encoding \<Rightarrow> service \<Rightarrow> string \<Rightarrow> string list option" where
  "chunk_knowledge_base enc self knowledge_text =
     chunk_loop (max_tokens_per_chunk self) (overlap_tokens self) (decode enc)
       (encode enc knowledge_text) 0 []"

subsection \<open>\<^verbatim>\<open>process_knowledge_chunk\<close> (lines 365-409)\<close>

text \<open>The prompt of lines 371-385: the lines of the literal, each after twelve spaces.\<close>

definition processing_prompt :: "string \<Rightarrow> int \<Rightarrow> string" where
  "processing_prompt chunk chunk_index =
     newline # join [newline] (map (\<lambda>l. replicate 12 CHR '' '' @ l)
       [''You are analyzing Warren Buffett knowledge chunk '' @ str_int (chunk_index + 1) @ ''.'',
        '''',
        ''Your task is to:'',
        ''1. Extract the most important investment principles'',
        ''2. Identify specific strategies and methodologies'',
        ''3. Note any quantitative metrics or criteria mentioned'',
        ''4. Capture memorable quotes or key insights'',
        ''5. Summarize actionable advice'',
        '''',
        ''Knowledge chunk:'',
        chunk,
        '''',
        ''Please provide a structured analysis focusing on practical investment wisdom.'',
        ''''])"

text \<open>
  The exception of an attribute that an object does not have: \<^verbatim>\<open>self.agent\<close> when no
  agent was set, and \<^verbatim>\<open>result.get\<close> when the agent's answer is not a dictionary.
\<close>

definition py_type_name :: "json \<Rightarrow> string" where
  "py_type_name v =
     (case v of JNull \<Rightarrow> ''NoneType'' | JBool b \<Rightarrow> ''bool'' | JInt i \<Rightarrow> ''int''
      | JStr s \<Rightarrow> ''str'' | JList xs \<Rightarrow> ''list'' | JDict kvs \<Rightarrow> ''dict'')"

definition no_attribute :: "string \<Rightarrow> string \<Rightarrow> exn" where
  "no_attribute type_name attr =
     Exn ''AttributeError''
       ([CHR 0x27] @ type_name @ [CHR 0x27] @ '' object has no attribute ''
        @ [CHR 0x27] @ attr @ [CHR 0x27])"

text \<open>
  The body of the \<^verbatim>\<open>try\<close>, giving the dictionary of lines 393-401 or the exception raised,
  and the method with its handler, which turns the exception into the dictionary of
  lines 405-409.
\<close>

definition process_knowledge_chunk_try ::
  "service \<Rightarrow> string \<Rightarrow> int \<Rightarrow> exn + (string \<times> json) list" where
  "process_knowledge_chunk_try self chunk chunk_index =
     (let prompt = processing_prompt chunk chunk_index in
      case agent self of
        None \<Rightarrow> Inl (no_attribute ''KnowledgeChunkingService'' ''agent'')
      | Some run \<Rightarrow>
          (case run prompt of
             Inl e \<Rightarrow> Inl e
           | Inr result \<Rightarrow>
               (case result of
                  JDict d \<Rightarrow>
                    Inr [(''chunk_index'', JInt chunk_index),
                         (''summary'', dict_get d ''summary'' (JStr '''')),
                         (''principles'', dict_get d ''principles'' (JList [])),
                         (''insights'', dict_get d ''insights'' (JList [])),
                         (''quotes'', dict_get d ''quotes'' (JList [])),
                         (''metrics'', dict_get d ''metrics'' (JDict [])),
                         (''processed'', JBool True)]
                | _ \<Rightarrow> Inl (no_attribute (py_type_name result) ''get''))))"

definition process_knowledge_chunk ::
  "service \<Rightarrow> string \<Rightarrow> int \<Rightarrow> (string \<times> json) list" where
  "process_knowledge_chunk self chunk chunk_index =
     (case process_knowledge_chunk_try self chunk chunk_index of
        Inr extraction \<Rightarrow> extraction
      | Inl e \<Rightarrow>
          [(''chunk_index'', JInt chunk_index),
           (''error'', JStr (exn_message e)),
           (''processed'', JBool False)])"

text \<open>The five list fields the specification gives an extraction.\<close>

definition list_fields :: "string list" where
  "list_fields = [''principles'', ''strategies'', ''metrics'', ''insights'', ''quotes'']"

text \<open>An agent that raises on every prompt, and one that answers with a string.\<close>

definition failing_agent :: "string \<Rightarrow> exn + json" where
  "failing_agent prompt = Inl (Exn ''TimeoutError'' ''timed out'')"

definition text_agent :: "string \<Rightarrow> exn + json" where
  "text_agent prompt = Inr (JStr ''Buy wonderful companies at fair prices.'')"

subsection \<open>\<^verbatim>\<open>_aggregate_processed_chunks\<close> (lines 472-501)\<close>

text \<open>
  A successful extraction is the dictionary \<^verbatim>\<open>process_knowledge_chunk\<close> returns at lines
  393-401, read with the types of its defaults: lists of strings, and a dictionary of
  metrics. It has no \<^verbatim>\<open>strategies\<close> entry.
\<close>

record extraction =
  chunk_index :: int
  summary :: string
  principles :: "string list"
  insights :: "string list"
  quotes :: "string list"
  metrics :: "(string \<times> string) list"

record agg_state =
  all_principles :: "string list"
  all_insights :: "string list"
  all_quotes :: "string list"
  all_metrics :: "(string \<times> string) list"
  summaries :: "string list"

record digest =
  investment_principles :: "string list"
  key_insights :: "string list"
  memorable_quotes :: "string list"
  quantitative_metrics :: "(string \<times> string) list"
  chunk_summaries :: "string list"
  total_processed_chunks :: int

text \<open>One pass of the \<^verbatim>\<open>for chunk in processed_chunks\<close> loop.\<close>

definition aggregate_step :: "agg_state \<Rightarrow> extraction \<Rightarrow> agg_state" where
  "aggregate_step a chunk =
     \<lparr>all_principles =
        (if principles chunk \<noteq> [] then all_principles a @ principles chunk
         else all_principles a),
      all_insights =
        (if insights chunk \<noteq> [] then all_insights a @ insights chunk else all_insights a),
      all_quotes =
        (if quotes chunk \<noteq> [] then all_quotes a @ quotes chunk else all_quotes a),
      all_metrics =
        (if metrics chunk \<noteq> [] then dict_update (all_metrics a) (metrics chunk)
         else all_metrics a),
      summaries =
        (if summary chunk \<noteq> [] then summaries a @ [summary chunk] else summaries a)\<rparr>"

definition aggregate_init :: agg_state where
  "aggregate_init =
     \<lparr>all_principles = [], all_insights = [], all_quotes = [], all_metrics = [],
      summaries = []\<rparr>"

definition aggregate_processed_chunks :: "extraction list \<Rightarrow> digest" where
  "aggregate_processed_chunks processed_chunks =
     (let a = foldl aggregate_step aggregate_init processed_chunks
      in \<lparr>investment_principles = list_of_set (all_principles a),
          key_insights = list_of_set (all_insights a),
          memorable_quotes = list_of_set (all_quotes a),
          quantitative_metrics = all_metrics a,
          chunk_summaries = summaries a,
          total_processed_chunks = int (length processed_chunks)\<rparr>)"

subsection \<open>\<^verbatim>\<open>_parse_structured_response\<close> (lines 133-174)\<close>

text \<open>
  The result dictionary has the five keys below from the start and never gets another,
  so it is a function from the key to its list. \<^verbatim>\<open>current_section\<close> is \<^verbatim>\<open>None\<close> or a key.
\<close>

datatype section_key = Principles | Strategies | Metrics | Insights | Quotes

text \<open>The \<^verbatim>\<open>if\<close>/\<^verbatim>\<open>elif\<close> chain of lines 152-166, on the stripped line.\<close>

definition header_of :: "(nat \<Rightarrow> unicode) \<Rightarrow> unicode \<Rightarrow> section_key option" where
  "header_of to_upper line =
     (if startswith (upper to_upper line) (ascii ''PRINCIPLES:'') then Some Principles
      else if startswith (upper to_upper line) (ascii ''STRATEGIES:'') then Some Strategies
      else if startswith (upper to_upper line) (ascii ''METRICS:'') then Some Metrics
      else if startswith (upper to_upper line) (ascii ''INSIGHTS:'') then Some Insights
      else if startswith (upper to_upper line) (ascii ''QUOTES:'') then Some Quotes
      else None)"

text \<open>The \<^verbatim>\<open>for line in lines\<close> loop, with its state \<^verbatim>\<open>current_section\<close> and \<^verbatim>\<open>result\<close>.\<close>

fun parse_lines ::
  "(nat \<Rightarrow> unicode) \<Rightarrow> section_key option \<Rightarrow> (section_key \<Rightarrow> unicode list) \<Rightarrow> unicode list
     \<Rightarrow> (section_key \<Rightarrow> unicode list)" where
  "parse_lines to_upper current_section result [] = result"
| "parse_lines to_upper current_section result (l # lines) =
     (let line = strip l in
      if line = [] then parse_lines to_upper current_section result lines
      else (case header_of to_upper line of
          Some s \<Rightarrow> parse_lines to_upper (Some s) result lines
        | None \<Rightarrow>
           (case current_section of
              Some cur \<Rightarrow>
                if startswith line (ascii ''- '') then
                  (let item = strip (drop 2 line) in
                   if item \<noteq> [] then
                     parse_lines to_upper current_section
                       (result(cur := result cur @ [item])) lines
                   else parse_lines to_upper current_section result lines)
                else parse_lines to_upper current_section result lines
            | None \<Rightarrow> parse_lines to_upper current_section result lines)))"

definition parse_structured_response ::
  "(nat \<Rightarrow> unicode) \<Rightarrow> unicode \<Rightarrow> (section_key \<Rightarrow> unicode list)" where
  "parse_structured_response to_upper response =
     parse_lines to_upper None (\<lambda>_. []) (split_on 0x0A response)"

text \<open>
  The parser as the specification words it, to compare with the loop. The five keywords
  are \<^verbatim>\<open>PRINCIPLES:\<close>, \<^verbatim>\<open>STRATEGIES:\<close>, \<^verbatim>\<open>METRICS:\<close>, \<^verbatim>\<open>INSIGHTS:\<close> and \<^verbatim>\<open>QUOTES:\<close>. A line names
  a section when its stripped text, in upper case, starts with the keyword of the
  section; a header line names one of the five sections; a bullet line is a line that is
  no header and whose stripped text starts with \<^verbatim>\<open>- \<close>; a section is in force after some
  lines when the last header line among them names it; a section's list holds the items
  of the bullet lines that stand where that section is in force.
\<close>

definition keyword :: "section_key \<Rightarrow> unicode" where
  "keyword s =
     (case s of Principles \<Rightarrow> ascii ''PRINCIPLES:'' | Strategies \<Rightarrow> ascii ''STRATEGIES:''
      | Metrics \<Rightarrow> ascii ''METRICS:'' | Insights \<Rightarrow> ascii ''INSIGHTS:''
      | Quotes \<Rightarrow> ascii ''QUOTES:'')"

definition names_section :: "(nat \<Rightarrow> unicode) \<Rightarrow> unicode \<Rightarrow> section_key \<Rightarrow> bool" where
  "names_section to_upper l s = startswith (upper to_upper (strip l)) (keyword s)"

definition is_header :: "(nat \<Rightarrow> unicode) \<Rightarrow> unicode \<Rightarrow> bool" where
  "is_header to_upper l =
     (names_section to_upper l Principles \<or> names_section to_upper l Strategies
      \<or> names_section to_upper l Metrics \<or> names_section to_upper l Insights
      \<or> names_section to_upper l Quotes)"

definition is_bullet :: "(nat \<Rightarrow> unicode) \<Rightarrow> unicode \<Rightarrow> bool" where
  "is_bullet to_upper l = (\<not> is_header to_upper l \<and> startswith (strip l) (ascii ''- ''))"

definition bullet_item :: "unicode \<Rightarrow> unicode" where
  "bullet_item l = strip (drop 2 (strip l))"

definition in_force :: "(nat \<Rightarrow> unicode) \<Rightarrow> unicode list \<Rightarrow> section_key \<Rightarrow> bool" where
  "in_force to_upper ls s =
     (case rev (filter (is_header to_upper) ls) of
        [] \<Rightarrow> False
      | h # _ \<Rightarrow> names_section to_upper h s)"

definition collected :: "(nat \<Rightarrow> unicode) \<Rightarrow> section_key \<Rightarrow> unicode list \<Rightarrow> unicode list" where
  "collected to_upper s ls =
     map (\<lambda>i. bullet_item (ls ! i))
       (filter (\<lambda>i. is_bullet to_upper (ls ! i) \<and> in_force to_upper (take i ls) s)
          [0..<length ls])"

text \<open>How one line moves \<^verbatim>\<open>current_section\<close>: a header line sets it, any other line keeps it.\<close>

definition cursor_step ::
  "(nat \<Rightarrow> unicode) \<Rightarrow> section_key option \<Rightarrow> unicode \<Rightarrow> section_key option" where
  "cursor_step to_upper c l =
     (case header_of to_upper (strip l) of None \<Rightarrow> c | Some s \<Rightarrow> Some s)"

text \<open>
  Matching without regard to case, on ASCII: the line starts with the letters of the
  keyword, each a capital or its lower-case letter, and with its other characters
  as they are.
\<close>

definition same_letter :: "nat \<Rightarrow> nat \<Rightarrow> bool" where
  "same_letter k c = (c = k \<or> (65 \<le> k \<and> k \<le> 90 \<and> c = k + 32))"

definition matches_ignoring_case :: "unicode \<Rightarrow> unicode \<Rightarrow> bool" where
  "matches_ignoring_case kw line =
     (length kw \<le> length line \<and> list_all2 same_letter kw (take (length kw) line))"

text \<open>
  A response with a bullet before any header, a header in lower case, a bullet line
  that starts with a no-break space and ends with a space, a section with no bullet, and
  a last line that is no bullet.
\<close>

definition sample_response :: unicode where
  "sample_response =
     ascii ''- a'' @ 0x0A # ascii ''quotes: x'' @ 0x0A # 0xA0 # ascii ''- q '' @ 0x0A
       # ascii ''Principles:'' @ 0x0A # ascii ''end''"


subsection \<open>JSON text\<close>

text \<open>
  What \<^verbatim>\<open>json.dump\<close> writes for a value, with \<^verbatim>\<open>ensure_ascii=False\<close>: in a string, the
  quote, the backslash and the control characters below 32 are escaped and every other
  character is written as it is. \<open>dumps_indent\<close> is the output with \<^verbatim>\<open>indent=2\<close> (items
  on lines of their own, separated by a comma), \<open>dumps\<close> the output with no indent (items
  separated by a comma and a space). \<^verbatim>\<open>json.load\<close> is not modelled: it is a parameter
  \<open>json_load\<close> of the functions that call it, giving the value or the exception it raises.
\<close>

definition hex_digit :: "nat \<Rightarrow> char" where
  "hex_digit d = (if d < 10 then char_of (48 + d) else char_of (87 + d))"

definition escape_char :: "char \<Rightarrow> string" where
  "escape_char c =
     (if c = CHR 0x22 then [CHR 0x5C, CHR 0x22]
      else if c = CHR 0x5C then [CHR 0x5C, CHR 0x5C]
      else if c = CHR 0x0A then [CHR 0x5C, CHR ''n'']
      else if c = CHR 0x0D then [CHR 0x5C, CHR ''r'']
      else if c = CHR 0x09 then [CHR 0x5C, CHR ''t'']
      else if c = CHR 0x08 then [CHR 0x5C, CHR ''b'']
      else if c = CHR 0x0C then [CHR 0x5C, CHR ''f'']
      else if (of_char c :: nat) < 32 then
        [CHR 0x5C, CHR ''u'', CHR ''0'', CHR ''0'',
         hex_digit ((of_char c :: nat) div 16), hex_digit ((of_char c :: nat) mod 16)]
      else [c])"

definition encode_basestring :: "string \<Rightarrow> string" where
  "encode_basestring s = [CHR 0x22] @ concat (map escape_char s) @ [CHR 0x22]"

definition newline_indent :: "nat \<Rightarrow> string" where
  "newline_indent level = newline # replicate (2 * level) CHR '' ''"

fun dumps_indent :: "nat \<Rightarrow> json \<Rightarrow> string" where
  "dumps_indent level JNull = ''null''"
| "dumps_indent level (JBool b) = (if b then ''true'' else ''false'')"
| "dumps_indent level (JInt i) = str_int i"
| "dumps_indent level (JStr s) = encode_basestring s"
| "dumps_indent level (JList xs) =
     (if xs = [] then ''[]''
      else ''['' @ newline_indent (Suc level)
           @ join ('','' @ newline_indent (Suc level)) (map (dumps_indent (Suc level)) xs)
           @ newline_indent level @ '']'')"
| "dumps_indent level (JDict kvs) =
     (if kvs = [] then ''{}''
      else ''{'' @ newline_indent (Suc level)
           @ join ('','' @ newline_indent (Suc level))
               (map (\<lambda>(k, v). encode_basestring k @ '': '' @ dumps_indent (Suc level) v) kvs)
           @ newline_indent level @ ''}'')"

fun dumps :: "json \<Rightarrow> string" where
  "dumps JNull = ''null''"
| "dumps (JBool b) = (if b then ''true'' else ''false'')"
| "dumps (JInt i) = str_int i"
| "dumps (JStr s) = encode_basestring s"
| "dumps (JList xs) = ''['' @ join '', '' (map dumps xs) @ '']''"
| "dumps (JDict kvs) =
     ''{'' @ join '', '' (map (\<lambda>(k, v). encode_basestring k @ '': '' @ dumps v) kvs) @ ''}''"

text \<open>
  The lines of a text file: the pieces between the newline characters, with no line
  after a final newline.
\<close>

definition file_lines :: "string \<Rightarrow> string list" where
  "file_lines content =
     (let pieces = split_on newline content
      in if last pieces = [] then butlast pieces else pieces)"

subsection \<open>\<^verbatim>\<open>save_processed_knowledge\<close> and \<^verbatim>\<open>load_processed_knowledge\<close> (lines 542-555)\<close>

text \<open>
  The file system, as far as the two methods see it: what opening a path for reading and
  reading it all gives (the text, or the exception of \<^verbatim>\<open>open\<close> or of the decoding), and
  whether opening a path for writing raises. A write replaces the whole text of the path.
\<close>

record filesystem =
  files :: "string \<Rightarrow> exn + string"
  write_error :: "string \<Rightarrow> exn option"

text \<open>\<^verbatim>\<open>save_processed_knowledge\<close> has no handler: an exception of \<^verbatim>\<open>open\<close> leaves it.\<close>

definition save_processed_knowledge ::
  "filesystem \<Rightarrow> service \<Rightarrow> string \<Rightarrow> exn + filesystem" where
  "save_processed_knowledge fs self filepath =
     (case write_error fs filepath of
        Some e \<Rightarrow> Inl e
      | None \<Rightarrow>
          Inr (fs\<lparr>files := (files fs)
                 (filepath := Inr (dumps_indent 0 (processed_knowledge self)))\<rparr>))"

text \<open>
  The body of the \<^verbatim>\<open>try\<close> of \<^verbatim>\<open>load_processed_knowledge\<close>, and the method with its handler:
  the assignment to \<^verbatim>\<open>self.processed_knowledge\<close> is the last step of the body.
\<close>

definition load_try ::
  "(string \<Rightarrow> exn + json) \<Rightarrow> filesystem \<Rightarrow> service \<Rightarrow> string \<Rightarrow> exn + service" where
  "load_try json_load fs self filepath =
     (case files fs filepath of
        Inl e \<Rightarrow> Inl e
      | Inr content \<Rightarrow>
          (case json_load content of
             Inl e \<Rightarrow> Inl e
           | Inr v \<Rightarrow> Inr (self\<lparr>processed_knowledge := v\<rparr>)))"

definition load_processed_knowledge ::
  "(string \<Rightarrow> exn + json) \<Rightarrow> filesystem \<Rightarrow> service \<Rightarrow> string \<Rightarrow> bool \<times> service" where
  "load_processed_knowledge json_load fs self filepath =
     (case load_try json_load fs self filepath of
        Inr self' \<Rightarrow> (True, self')
      | Inl e \<Rightarrow> (False, self))"

text \<open>
  The shadowed first definition of the writer (lines 313-320): the path gets the suffix
  \<^verbatim>\<open>.jsonl\<close> (\<^verbatim>\<open>Path.with_suffix\<close>, a parameter), and the text is the value with no indent
  followed by a newline.
\<close>

definition save_processed_knowledge_first ::
  "(string \<Rightarrow> string \<Rightarrow> exn + string) \<Rightarrow> filesystem \<Rightarrow> service \<Rightarrow> string
     \<Rightarrow> exn + filesystem" where
  "save_processed_knowledge_first with_suffix fs self filepath =
     (case with_suffix filepath ''.jsonl'' of
        Inl e \<Rightarrow> Inl e
      | Inr filepath' \<Rightarrow>
          (case write_error fs filepath' of
             Some e \<Rightarrow> Inl e
           | None \<Rightarrow>
               Inr (fs\<lparr>files := (files fs)
                      (filepath' := Inr (dumps (processed_knowledge self) @ [newline]))\<rparr>)))"

text \<open>
  A record of the shape the specification gives the persisted record: the aggregated
  knowledge (one principle) and the processing statistics.
\<close>

definition sample_record :: json where
  "sample_record =
     JDict [(''aggregated_knowledge'',
               JDict [(''investment_principles'', JList [JStr ''Moat''])]),
            (''processing_stats'', JDict [(''total_tokens'', JInt 5)])]"

text \<open>
  A stand-in for \<^verbatim>\<open>json.load\<close> that reads the text written for \<^const>\<open>sample_record\<close> and
  rejects every other text.
\<close>

definition sample_json_load :: "string \<Rightarrow> exn + json" where
  "sample_json_load content =
     (if content = dumps_indent 0 sample_record then Inr sample_record
      else Inl (Exn ''JSONDecodeError'' ''Expecting value''))"

text \<open>An empty file system: no path can be read, every path can be written.\<close>

definition empty_fs :: filesystem where
  "empty_fs = \<lparr>files = (\<lambda>_. Inl (Exn ''FileNotFoundError'' ''No such file or directory'')),
               write_error = (\<lambda>_. None)\<rparr>"

subsection \<open>\<^verbatim>\<open>get_condensed_knowledge_for_prompt\<close> (lines 503-529)\<close>

text \<open>
  The method reads \<^verbatim>\<open>self.processed_knowledge\<close> as \<^verbatim>\<open>process_full_knowledge_base\<close> builds
  it: \<open>None\<close> stands for the empty dictionary of \<^verbatim>\<open>__init__\<close>, and \<open>Some d\<close> for a record whose
  \<^verbatim>\<open>aggregated_knowledge\<close> is the digest \<open>d\<close> (an absent key reads as its default, the
  empty list, the empty dictionary or 0). The bullet is the character U+2022, three
  bytes in UTF-8.
\<close>

definition bullet :: string where
  "bullet = [CHR 0xE2, CHR 0x80, CHR 0xA2]"

definition principle_lines :: "digest \<Rightarrow> string list" where
  "principle_lines aggregated =
     map (\<lambda>principle. bullet @ '' '' @ principle) (take 20 (investment_principles aggregated))"

definition insight_lines :: "digest \<Rightarrow> string list" where
  "insight_lines aggregated =
     map (\<lambda>insight. bullet @ '' '' @ insight) (take 15 (key_insights aggregated))"

definition quote_lines :: "digest \<Rightarrow> string list" where
  "quote_lines aggregated =
     map (\<lambda>quote. bullet @ '' '' @ [CHR 0x22] @ quote @ [CHR 0x22])
       (take 10 (memorable_quotes aggregated))"

definition metric_lines :: "digest \<Rightarrow> string list" where
  "metric_lines aggregated =
     map (\<lambda>(metric, value). bullet @ '' '' @ metric @ '': '' @ value)
       (quantitative_metrics aggregated)"

definition get_condensed_knowledge_for_prompt :: "digest option \<Rightarrow> string" where
  "get_condensed_knowledge_for_prompt processed =
     (case processed of
        None \<Rightarrow> []
      | Some aggregated \<Rightarrow>
          [newline] @ ''WARREN BUFFETT INVESTMENT WISDOM (Processed from ''
          @ str_int (total_processed_chunks aggregated) @ '' knowledge chunks)''
          @ [newline, newline] @ ''KEY INVESTMENT PRINCIPLES:'' @ [newline]
          @ join [newline] (principle_lines aggregated)
          @ [newline, newline] @ ''CRITICAL INSIGHTS:'' @ [newline]
          @ join [newline] (insight_lines aggregated)
          @ [newline, newline] @ ''MEMORABLE QUOTES:'' @ [newline]
          @ join [newline] (quote_lines aggregated)
          @ [newline, newline] @ ''QUANTITATIVE METRICS:'' @ [newline]
          @ join [newline] (metric_lines aggregated)
          @ [newline])"

subsection \<open>The shadowed first definitions (lines 240-300)\<close>

text \<open>
  The aggregator and the renderer that the class body defines first and then replaces.
  Here an extraction has the five list fields of the parser, and the digest one list for
  each. Their names end in \<open>_first\<close>.
\<close>

record extraction_first =
  principles_first :: "string list"
  strategies_first :: "string list"
  metrics_first :: "string list"
  insights_first :: "string list"
  quotes_first :: "string list"

record agg_state_first =
  all_principles_first :: "string list"
  all_strategies_first :: "string list"
  all_metrics_first :: "string list"
  all_insights_first :: "string list"
  all_quotes_first :: "string list"

record digest_first =
  investment_principles_first :: "string list"
  investment_strategies_first :: "string list"
  quantitative_metrics_first :: "string list"
  key_insights_first :: "string list"
  memorable_quotes_first :: "string list"
  total_processed_chunks_first :: int

definition aggregate_step_first :: "agg_state_first \<Rightarrow> extraction_first \<Rightarrow> agg_state_first" where
  "aggregate_step_first a chunk =
     \<lparr>all_principles_first =
        (if principles_first chunk \<noteq> [] then all_principles_first a @ principles_first chunk
         else all_principles_first a),
      all_strategies_first =
        (if strategies_first chunk \<noteq> [] then all_strategies_first a @ strategies_first chunk
         else all_strategies_first a),
      all_metrics_first =
        (if metrics_first chunk \<noteq> [] then all_metrics_first a @ metrics_first chunk
         else all_metrics_first a),
      all_insights_first =
        (if insights_first chunk \<noteq> [] then all_insights_first a @ insights_first chunk
         else all_insights_first a),
      all_quotes_first =
        (if quotes_first chunk \<noteq> [] then all_quotes_first a @ quotes_first chunk
         else all_quotes_first a)\<rparr>"

definition aggregate_processed_chunks_first :: "extraction_first list \<Rightarrow> digest_first" where
  "aggregate_processed_chunks_first processed_chunks =
     (let a = foldl aggregate_step_first
                \<lparr>all_principles_first = [], all_strategies_first = [], all_metrics_first = [],
                 all_insights_first = [], all_quotes_first = []\<rparr> processed_chunks
      in \<lparr>investment_principles_first = list_of_set (all_principles_first a),
          investment_strategies_first = list_of_set (all_strategies_first a),
          quantitative_metrics_first = list_of_set (all_metrics_first a),
          key_insights_first = list_of_set (all_insights_first a),
          memorable_quotes_first = list_of_set (all_quotes_first a),
          total_processed_chunks_first = int (length processed_chunks)\<rparr>)"

definition section_lines_first :: "digest_first \<Rightarrow> string list list" where
  "section_lines_first aggregated =
     [map (\<lambda>principle. bullet @ '' '' @ principle)
        (take 25 (investment_principles_first aggregated)),
      map (\<lambda>strategy. bullet @ '' '' @ strategy)
        (take 20 (investment_strategies_first aggregated)),
      map (\<lambda>metric. bullet @ '' '' @ metric)
        (take 15 (quantitative_metrics_first aggregated)),
      map (\<lambda>insight. bullet @ '' '' @ insight)
        (take 20 (key_insights_first aggregated)),
      map (\<lambda>quote. bullet @ '' '' @ [CHR 0x22] @ quote @ [CHR 0x22])
        (take 10 (memorable_quotes_first aggregated))]"

definition get_condensed_knowledge_for_prompt_first :: "digest_first option \<Rightarrow> string" where
  "get_condensed_knowledge_for_prompt_first processed =
     (case processed of
        None \<Rightarrow> []
      | Some aggregated \<Rightarrow>
          [newline] @ ''WARREN BUFFETT INVESTMENT WISDOM (Processed from ''
          @ str_int (total_processed_chunks_first aggregated) @ '' knowledge chunks)''
          @ [newline, newline] @ ''KEY INVESTMENT PRINCIPLES:'' @ [newline]
          @ join [newline] (section_lines_first aggregated ! 0)
          @ [newline, newline] @ ''INVESTMENT STRATEGIES:'' @ [newline]
          @ join [newline] (section_lines_first aggregated ! 1)
          @ [newline, newline] @ ''QUANTITATIVE METRICS & CRITERIA:'' @ [newline]
          @ join [newline] (section_lines_first aggregated ! 2)
          @ [newline, newline] @ ''CRITICAL INSIGHTS:'' @ [newline]
          @ join [newline] (section_lines_first aggregated ! 3)
          @ [newline, newline] @ ''MEMORABLE QUOTES:'' @ [newline]
          @ join [newline] (section_lines_first aggregated ! 4)
          @ [newline])"

text \<open>Two extractions that give the same metric two values, and a digest of \<open>n\<close> metrics.\<close>

definition metric_extraction :: "string \<Rightarrow> extraction" where
  "metric_extraction v =
     \<lparr>chunk_index = 0, summary = [], principles = [], insights = [], quotes = [],
      metrics = [(''ROE'', v)]\<rparr>"

definition metrics_digest :: "nat \<Rightarrow> digest" where
  "metrics_digest n =
     \<lparr>investment_principles = [], key_insights = [], memorable_quotes = [],
      quantitative_metrics = map (\<lambda>i. (''metric '' @ str_nat i, ''1'')) [0..<n],
      chunk_summaries = [], total_processed_chunks = 1\<rparr>"

section \<open>Properties\<close>

subsection \<open>The chunker\<close>

text \<open>
  Once a window has reached the end of the tokens, \<^verbatim>\<open>start_idx\<close> is set to
  \<^verbatim>\<open>len(tokens) - overlap_tokens\<close>, which is below \<^verbatim>\<open>len(tokens)\<close> when the overlap is
  positive: the \<^verbatim>\<open>break\<close> is not taken and the loop test holds again. So from a state
  inside the tokens the loop never returns.
\<close>

lemma chunk_loop_returns_imp:
  assumes "chunk_loop mx ov dec tokens start_idx chunks = Some r"
  shows "\<not> (start_idx < int (length tokens) \<and> 0 < ov)"
proof (rule chunk_loop.raw_induct
    [where P = "\<lambda>mx ov dec tokens start_idx chunks r.
                  \<not> (start_idx < int (length tokens) \<and> 0 < ov)", OF _ assms])
  fix f mx ov tokens start_idx r
  fix dec :: "'a list \<Rightarrow> string" and chunks :: "string list"
  assume IH: "\<And>mx ov dec tokens start_idx chunks r.
      f mx ov dec tokens start_idx chunks = Some r \<Longrightarrow>
      \<not> (start_idx < int (length tokens) \<and> 0 < ov)"
    and step: "(if start_idx < int (length tokens) then
        (let end_idx = min (start_idx + mx) (int (length tokens));
             chunk_tokens = py_slice tokens start_idx end_idx;
             chunk_text = dec chunk_tokens;
             chunks' = chunks @ [chunk_text];
             start_idx' = end_idx - ov
         in if start_idx' \<ge> int (length tokens) then Some chunks'
            else f mx ov dec tokens start_idx' chunks')
      else Some chunks) = Some r"
  show "\<not> (start_idx < int (length tokens) \<and> 0 < ov)"
  proof
    assume a: "start_idx < int (length tokens) \<and> 0 < ov"
    let ?e = "min (start_idx + mx) (int (length tokens))"
    have lt: "?e - ov < int (length tokens)"
      using a by (simp add: min_def)
    from step a lt
    have "f mx ov dec tokens (?e - ov) (chunks @ [dec (py_slice tokens start_idx ?e)]) = Some r"
      by (simp add: Let_def)
    from IH [OF this] a lt show False by simp
  qed
qed

lemma chunk_loop_diverges:
  "start_idx < int (length tokens) \<Longrightarrow> 0 < ov \<Longrightarrow>
   chunk_loop mx ov dec tokens start_idx chunks = None"
  using chunk_loop_returns_imp [of mx ov dec tokens start_idx chunks]
  by (cases "chunk_loop mx ov dec tokens start_idx chunks") auto

text \<open>
  The loop does return when the overlap is not positive and below the chunk size: then
  \<^verbatim>\<open>start_idx\<close> grows in every pass.
\<close>

lemma chunk_loop_terminates:
  assumes "ov \<le> 0" and "ov < mx"
  shows "\<exists>r. chunk_loop mx ov dec tokens start_idx chunks = Some r"
proof (induction "nat (int (length tokens) - start_idx)" arbitrary: start_idx chunks
    rule: less_induct)
  case less
  let ?n = "int (length tokens)"
  show ?case
  proof (cases "start_idx < ?n")
    case False
    then show ?thesis by (subst chunk_loop.simps) simp
  next
    case True
    let ?e = "min (start_idx + mx) ?n"
    let ?s = "?e - ov"
    show ?thesis
    proof (cases "?n \<le> ?s")
      case True
      with \<open>start_idx < ?n\<close> show ?thesis by (subst chunk_loop.simps) (simp add: Let_def)
    next
      case False
      then have "?e = start_idx + mx" using assms by (simp add: min_def split: if_splits)
      then have "start_idx < ?s" using assms by simp
      with False have "nat (?n - ?s) < nat (?n - start_idx)" by simp
      from less [OF this] obtain r where
        "chunk_loop mx ov dec tokens ?s (chunks @ [dec (py_slice tokens start_idx ?e)]) = Some r"
        by blast
      with True False show ?thesis by (subst chunk_loop.simps) (simp add: Let_def)
    qed
  qed
qed

lemma chunk_knowledge_base_no_overlap:
  "chunk_knowledge_base \<lparr>encode = id, decode = id\<rparr>
     (init_service\<lparr>max_tokens_per_chunk := 2, overlap_tokens := 0\<rparr>) ''abcde''
   = Some [''ab'', ''cd'', ''e'']"
  by (simp add: chunk_knowledge_base_def init_service_def chunk_loop.simps py_slice_def)

lemma chunk_knowledge_base_empty:
  "encode enc T = [] \<Longrightarrow> chunk_knowledge_base enc self T = Some []"
  unfolding chunk_knowledge_base_def by (simp add: chunk_loop.simps)

subsection \<open>The aggregator\<close>

lemma dict_update_Nil: "dict_update d [] = d"
  by (simp add: dict_update_def)

lemma foldl_all_principles:
  "all_principles (foldl aggregate_step a cs) = all_principles a @ concat (map principles cs)"
  by (induction cs arbitrary: a) (simp_all add: aggregate_step_def)

lemma foldl_all_insights:
  "all_insights (foldl aggregate_step a cs) = all_insights a @ concat (map insights cs)"
  by (induction cs arbitrary: a) (simp_all add: aggregate_step_def)

lemma foldl_all_quotes:
  "all_quotes (foldl aggregate_step a cs) = all_quotes a @ concat (map quotes cs)"
  by (induction cs arbitrary: a) (simp_all add: aggregate_step_def)

lemma foldl_all_metrics:
  "all_metrics (foldl aggregate_step a cs) = foldl dict_update (all_metrics a) (map metrics cs)"
  by (induction cs arbitrary: a) (simp_all add: aggregate_step_def dict_update_Nil)

lemma foldl_summaries:
  "summaries (foldl aggregate_step a cs) =
   summaries a @ filter (\<lambda>s. s \<noteq> []) (map summary cs)"
  by (induction cs arbitrary: a) (simp_all add: aggregate_step_def)

lemma investment_principles_eq:
  "investment_principles (aggregate_processed_chunks cs) = remdups (concat (map principles cs))"
  by (simp add: aggregate_processed_chunks_def Let_def list_of_set_def foldl_all_principles
      aggregate_init_def)

lemma key_insights_eq:
  "key_insights (aggregate_processed_chunks cs) = remdups (concat (map insights cs))"
  by (simp add: aggregate_processed_chunks_def Let_def list_of_set_def foldl_all_insights
      aggregate_init_def)

lemma memorable_quotes_eq:
  "memorable_quotes (aggregate_processed_chunks cs) = remdups (concat (map quotes cs))"
  by (simp add: aggregate_processed_chunks_def Let_def list_of_set_def foldl_all_quotes
      aggregate_init_def)

lemma quantitative_metrics_eq:
  "quantitative_metrics (aggregate_processed_chunks cs) = foldl dict_update [] (map metrics cs)"
  by (simp add: aggregate_processed_chunks_def Let_def foldl_all_metrics aggregate_init_def)

lemma total_processed_chunks_eq:
  "total_processed_chunks (aggregate_processed_chunks cs) = int (length cs)"
  by (simp add: aggregate_processed_chunks_def Let_def)

subsection \<open>The response parser\<close>

lemma keyword_heads:
  "hd (keyword s) = (case s of Principles \<Rightarrow> 80 | Strategies \<Rightarrow> 83 | Metrics \<Rightarrow> 77 | Insights \<Rightarrow> 73 | Quotes \<Rightarrow> 81)"
  by (cases s) (simp_all add: keyword_def ascii_def)

lemma startswith_hd: "startswith x p \<Longrightarrow> p \<noteq> [] \<Longrightarrow> x \<noteq> [] \<and> hd x = hd p"
  by (cases x; cases p) (auto simp: startswith_def)

lemma keyword_nonempty: "keyword s \<noteq> []"
  by (cases s) (simp_all add: keyword_def ascii_def)

lemma keyword_unique:
  "startswith x (keyword s) \<Longrightarrow> startswith x (keyword t) \<Longrightarrow> s = t"
proof -
  assume a: "startswith x (keyword s)" and b: "startswith x (keyword t)"
  from startswith_hd [OF a keyword_nonempty] startswith_hd [OF b keyword_nonempty]
  have "hd (keyword s) = hd (keyword t)" by simp
  then show ?thesis unfolding keyword_heads by (cases s; cases t) simp_all
qed

lemma header_of_iff:
  "header_of to_upper line = Some s \<longleftrightarrow> startswith (upper to_upper line) (keyword s)"
proof
  assume "header_of to_upper line = Some s"
  then show "startswith (upper to_upper line) (keyword s)"
    by (auto simp: header_of_def keyword_def split: if_splits)
next
  assume a: "startswith (upper to_upper line) (keyword s)"
  have k: "ascii ''PRINCIPLES:'' = keyword Principles" "ascii ''STRATEGIES:'' = keyword Strategies"
    "ascii ''METRICS:'' = keyword Metrics" "ascii ''INSIGHTS:'' = keyword Insights"
    "ascii ''QUOTES:'' = keyword Quotes"
    by (simp_all add: keyword_def)
  show "header_of to_upper line = Some s"
    unfolding header_of_def k
    using a keyword_unique [OF a] by (cases s) auto
qed

lemma header_of_None_iff:
  "header_of to_upper (strip l) = None \<longleftrightarrow> \<not> is_header to_upper l"
proof -
  have "header_of to_upper (strip l) \<noteq> None \<longleftrightarrow> (\<exists>s. header_of to_upper (strip l) = Some s)"
    by auto
  also have "\<dots> \<longleftrightarrow> (\<exists>s. names_section to_upper l s)"
    by (simp add: header_of_iff names_section_def)
  also have "\<dots> \<longleftrightarrow> is_header to_upper l"
    unfolding is_header_def by (metis section_key.exhaust)
  finally show ?thesis by blast
qed

lemma strip_last: "strip l \<noteq> [] \<Longrightarrow> \<not> is_whitespace (last (strip l))"
proof -
  assume a: "strip l \<noteq> []"
  let ?b = "dropWhile is_whitespace (rev (dropWhile is_whitespace l))"
  from a have "?b \<noteq> []" by (simp add: strip_def)
  then have "\<not> is_whitespace (hd ?b)" by (rule hd_dropWhile)
  moreover have "last (strip l) = hd ?b" using \<open>?b \<noteq> []\<close> by (simp add: strip_def last_rev)
  ultimately show ?thesis by simp
qed

lemma strip_nonempty: "xs \<noteq> [] \<Longrightarrow> \<not> is_whitespace (last xs) \<Longrightarrow> strip xs \<noteq> []"
proof -
  assume n: "xs \<noteq> []" and l: "\<not> is_whitespace (last xs)"
  let ?a = "dropWhile is_whitespace xs"
  have a: "?a \<noteq> []" using n l by (auto simp: dropWhile_eq_Nil_conv)
  have "xs = takeWhile is_whitespace xs @ ?a" by simp
  then have "last xs = last ?a" using a by (metis last_appendR)
  then have "\<not> is_whitespace (hd (rev ?a))" using a l by (simp add: hd_rev)
  moreover have "rev ?a \<noteq> []" using a by simp
  ultimately have "dropWhile is_whitespace (rev ?a) = rev ?a"
    by (cases "rev ?a") auto
  then show ?thesis using a by (simp add: strip_def)
qed

lemma bullet_item_nonempty:
  assumes "startswith (strip l) (ascii ''- '')"
  shows "bullet_item l \<noteq> []"
proof -
  from assms obtain rest where s: "strip l = 45 # 32 # rest"
    by (cases "strip l"; cases "tl (strip l)") (auto simp: startswith_def ascii_def)
  have sp: "is_whitespace 32" by (simp add: is_whitespace_def)
  from s strip_last [of l] sp have "rest \<noteq> []" by auto
  moreover from s strip_last [of l] calculation have "\<not> is_whitespace (last rest)" by auto
  ultimately show ?thesis using s by (simp add: bullet_item_def strip_nonempty)
qed

lemma header_of_Nil: "header_of to_upper [] = None"
  by (simp add: header_of_def startswith_def upper_def ascii_def)

lemma parse_lines_step:
  "parse_lines to_upper c r (l # ls) =
     parse_lines to_upper (cursor_step to_upper c l)
       (case c of
          Some cur \<Rightarrow> if is_bullet to_upper l then r(cur := r cur @ [bullet_item l]) else r
        | None \<Rightarrow> r) ls"
proof (cases "strip l = []")
  case True
  then show ?thesis
    by (simp add: cursor_step_def header_of_Nil is_bullet_def startswith_def ascii_def
        split: option.splits)
next
  case False
  show ?thesis
  proof (cases "header_of to_upper (strip l)")
    case (Some s)
    then have "\<not> is_bullet to_upper l"
      using header_of_None_iff [of to_upper l] by (simp add: is_bullet_def)
    with False Some show ?thesis by (simp add: cursor_step_def split: option.splits)
  next
    case None
    then have nh: "\<not> is_header to_upper l" by (simp add: header_of_None_iff)
    show ?thesis
    proof (cases "startswith (strip l) (ascii ''- '')")
      case True
      from bullet_item_nonempty [OF True] have "strip (drop 2 (strip l)) \<noteq> []"
        by (simp add: bullet_item_def)
      with True False None nh show ?thesis
        by (simp add: cursor_step_def is_bullet_def bullet_item_def Let_def split: option.splits)
    next
      case nb: False
      with False None show ?thesis
        by (simp add: cursor_step_def is_bullet_def Let_def split: option.splits)
    qed
  qed
qed

lemma foldl_cursor_eq:
  "foldl (cursor_step to_upper) c ls =
     (case rev (filter (is_header to_upper) ls) of
        [] \<Rightarrow> c
      | h # _ \<Rightarrow> header_of to_upper (strip h))"
proof (induction ls rule: rev_induct)
  case Nil
  show ?case by simp
next
  case (snoc l ls)
  show ?case
  proof (cases "is_header to_upper l")
    case True
    then obtain s where "header_of to_upper (strip l) = Some s"
      using header_of_None_iff [of to_upper l] by auto
    with True show ?thesis by (simp add: cursor_step_def)
  next
    case False
    then have "header_of to_upper (strip l) = None" by (simp add: header_of_None_iff)
    with False snoc show ?thesis by (simp add: cursor_step_def)
  qed
qed

lemma in_force_eq: "in_force to_upper ls s \<longleftrightarrow> foldl (cursor_step to_upper) None ls = Some s"
proof (cases "rev (filter (is_header to_upper) ls)")
  case Nil
  then show ?thesis by (simp add: foldl_cursor_eq in_force_def)
next
  case (Cons h hs)
  then have "in_force to_upper ls s \<longleftrightarrow> names_section to_upper h s"
    by (simp add: in_force_def)
  moreover from Cons
  have "foldl (cursor_step to_upper) None ls = header_of to_upper (strip h)"
    by (simp add: foldl_cursor_eq)
  ultimately show ?thesis
    by (simp only: header_of_iff names_section_def)
qed

lemma parse_lines_eq:
  "parse_lines to_upper c r ls s =
     r s @ map (\<lambda>i. bullet_item (ls ! i))
            (filter (\<lambda>i. is_bullet to_upper (ls ! i)
                      \<and> foldl (cursor_step to_upper) c (take i ls) = Some s)
               [0..<length ls])"
proof (induction ls arbitrary: c r)
  case Nil
  show ?case by simp
next
  case (Cons l ls)
  have upt: "[0..<length (l # ls)] = 0 # map Suc [0..<length ls]"
    by (simp add: upt_conv_Cons map_Suc_upt del: upt_Suc)
  show ?case
    unfolding parse_lines_step Cons.IH upt
    by (cases c) (simp_all add: filter_map comp_def)
qed

lemma parse_lines_append:
  "parse_lines to_upper c r (xs @ ys) =
     parse_lines to_upper (foldl (cursor_step to_upper) c xs) (parse_lines to_upper c r xs) ys"
proof (induction xs arbitrary: c r)
  case Nil
  show ?case by simp
next
  case (Cons l xs)
  show ?case
    unfolding append_Cons parse_lines_step Cons.IH by simp
qed

declare parse_lines.simps [simp del]

lemma parse_lines_no_header:
  "\<forall>l \<in> set pre. \<not> is_header to_upper l \<Longrightarrow>
   parse_lines to_upper None r pre = r \<and> foldl (cursor_step to_upper) None pre = None"
proof (induction pre)
  case Nil
  show ?case by (simp add: parse_lines.simps)
next
  case (Cons l pre)
  then have "header_of to_upper (strip l) = None"
    using header_of_None_iff [of to_upper l] by simp
  then have "cursor_step to_upper None l = None"
    by (simp add: cursor_step_def)
  with Cons show ?case unfolding parse_lines_step by simp
qed

lemma parse_lines_skip:
  assumes "\<not> is_header to_upper l" and "\<not> is_bullet to_upper l"
  shows "parse_lines to_upper c r (l # ls) = parse_lines to_upper c r ls"
proof -
  from assms(1) have "header_of to_upper (strip l) = None"
    using header_of_None_iff [of to_upper l] by simp
  with assms(2) show ?thesis
    unfolding parse_lines_step by (simp add: cursor_step_def split: option.splits)
qed

lemma keyword_chars: "k \<in> set (keyword s) \<Longrightarrow> k < 97"
  by (cases s) (auto simp: keyword_def ascii_def)

lemma upper_matching:
  assumes "ascii_upper_table to_upper"
  shows "list_all2 same_letter kw p \<Longrightarrow> \<forall>k \<in> set kw. k < 97 \<Longrightarrow> upper to_upper p = kw"
proof (induction kw p rule: list_all2_induct)
  case Nil
  show ?case by (simp add: upper_def)
next
  case (Cons k kw c p)
  then have k: "k < 97" by simp
  from Cons.hyps(1) k have "c < 128" by (auto simp: same_letter_def)
  with assms have "to_upper c = [if 97 \<le> c \<and> c \<le> 122 then c - 32 else c]"
    by (simp add: ascii_upper_table_def)
  with Cons.hyps(1) k have "to_upper c = [k]" by (auto simp: same_letter_def)
  moreover from Cons have "upper to_upper p = kw" by simp
  ultimately show ?case by (simp add: upper_def)
qed

lemma header_of_ignoring_case:
  assumes t: "ascii_upper_table to_upper" and m: "matches_ignoring_case (keyword s) line"
  shows "header_of to_upper line = Some s"
proof -
  let ?n = "length (keyword s)"
  from m have "upper to_upper (take ?n line) = keyword s"
    using upper_matching [OF t, of "keyword s" "take ?n line"] keyword_chars [of _ s]
    by (auto simp: matches_ignoring_case_def)
  moreover have "upper to_upper line = upper to_upper (take ?n line) @ upper to_upper (drop ?n line)"
    by (simp add: upper_def flip: concat_append map_append)
  ultimately have "startswith (upper to_upper line) (keyword s)"
    by (simp add: startswith_def)
  then show ?thesis by (simp add: header_of_iff)
qed

lemma upper_ascii:
  assumes "ascii_upper_table to_upper" and "\<forall>c \<in> set line. c < 128"
  shows "upper to_upper line = map (\<lambda>c. if 97 \<le> c \<and> c \<le> 122 then c - 32 else c) line"
  using assms(2)
proof (induction line)
  case Nil
  show ?case by (simp add: upper_def)
next
  case (Cons c line)
  then have "c < 128" by simp
  with assms(1) have "to_upper c = [if 97 \<le> c \<and> c \<le> 122 then c - 32 else c]"
    by (simp add: ascii_upper_table_def)
  with Cons show ?case by (simp add: upper_def)
qed

lemma header_of_ascii_matches:
  assumes t: "ascii_upper_table to_upper" and a: "\<forall>c \<in> set line. c < 128"
    and h: "header_of to_upper line = Some s"
  shows "matches_ignoring_case (keyword s) line"
proof -
  define up where "up = (\<lambda>c::nat. if 97 \<le> c \<and> c \<le> 122 then c - 32 else c)"
  define n where "n = length (keyword s)"
  define p where "p = take n line"
  from h have "startswith (upper to_upper line) (keyword s)"
    by (simp only: header_of_iff)
  then have "take n (map up line) = keyword s"
    unfolding upper_ascii [OF t a] startswith_def n_def up_def .
  then have e: "map up p = keyword s" by (simp add: take_map p_def)
  then have len: "length p = n" unfolding n_def by (metis length_map)
  then have le: "n \<le> length line" by (simp add: p_def)
  have "list_all2 same_letter (keyword s) p"
  proof (rule list_all2_all_nthI)
    show "length (keyword s) = length p" using len by (simp add: n_def)
  next
    fix i assume i: "i < length (keyword s)"
    with len have "i < length p" by (simp add: n_def)
    then have "map up p ! i = up (p ! i)" by (rule nth_map)
    with e have "up (p ! i) = keyword s ! i" by simp
    then show "same_letter (keyword s ! i) (p ! i)"
      unfolding up_def same_letter_def by (cases "97 \<le> p ! i \<and> p ! i \<le> 122") auto
  qed
  with le show ?thesis by (simp add: matches_ignoring_case_def n_def p_def)
qed

lemma sample_table_ascii: "ascii_upper_table sample_table"
  by (simp add: ascii_upper_table_def sample_table_def)

lemmas sample_defs = ascii_def is_header_def names_section_def keyword_def startswith_def
  upper_def strip_def is_whitespace_def sample_table_def header_of_def

lemma sample_lines:
  "\<forall>l \<in> set (split_on 0x0A (ascii ''- a'')). \<not> is_header sample_table l"
  "0x0A \<notin> set (ascii ''end'')" "\<not> is_header sample_table (ascii ''end'')"
  "\<not> startswith (strip (ascii ''end'')) (ascii ''- '')"
  "matches_ignoring_case (keyword Quotes) (ascii ''QuOtEs: x'')"
  "\<forall>c \<in> set (ascii ''QuOtEs: x''). c < 128"
  by (simp_all add: sample_defs matches_ignoring_case_def same_letter_def)

lemma sample_parsed:
  "parse_structured_response sample_table sample_response Quotes = [ascii ''q'']"
  "parse_structured_response sample_table sample_response Principles = []"
  by (simp_all add: sample_defs parse_structured_response_def sample_response_def
      parse_lines.simps)

lemma sample_headers:
  "header_of sample_table [0x71, 0x75, 0x131, 0x74, 0x65, 0x17F, 0x3A] = None"
  "header_of sample_table [0x131, 0x6E, 0x17F, 0x131, 0x67, 0x68, 0x74, 0x17F, 0x3A]
     = Some Insights"
  by (simp_all add: sample_defs)


subsection \<open>Lines of text\<close>

lemma split_on_nonempty: "split_on c s \<noteq> []"
  by (induction s) (auto split: list.splits)

lemma split_on_append: "split_on c (xs @ c # ys) = split_on c xs @ split_on c ys"
proof (induction xs)
  case Nil
  show ?case by simp
next
  case (Cons x xs)
  obtain l ls where "split_on c xs = l # ls"
    using split_on_nonempty [of c xs] by (cases "split_on c xs") auto
  with Cons show ?case by simp
qed

lemma split_on_none: "c \<notin> set s \<Longrightarrow> split_on c s = [s]"
  by (induction s) auto

lemma newline_indent_eq: "newline_indent level = newline # replicate (2 * level) CHR '' ''"
  by (simp add: newline_indent_def)

text \<open>With \<^verbatim>\<open>indent=2\<close> a dictionary that is not empty takes at least three lines.\<close>

lemma dumps_indent_dict_lines:
  assumes "kvs \<noteq> []"
  shows "3 \<le> length (file_lines (dumps_indent 0 (JDict kvs)))"
proof -
  define body where "body = replicate 2 CHR '' '' @ join ('','' @ newline_indent (Suc 0))
               (map (\<lambda>(k, v). encode_basestring k @ '': '' @ dumps_indent (Suc 0) v) kvs)"
  have eq: "dumps_indent 0 (JDict kvs) = ''{'' @ newline # (body @ newline # ''}'')"
    using assms by (simp add: body_def newline_indent_eq)
  have sp: "split_on newline (dumps_indent 0 (JDict kvs))
      = split_on newline ''{'' @ split_on newline body @ split_on newline ''}''"
    unfolding eq by (simp only: split_on_append)
  have nl: "newline \<noteq> CHR ''}''" by (simp add: newline_def)
  then have last: "last (split_on newline (dumps_indent 0 (JDict kvs))) = ''}''"
    unfolding sp by (simp add: split_on_nonempty)
  have "length (split_on newline body) \<ge> 1"
    using split_on_nonempty [of newline body] by (cases "split_on newline body") auto
  then have "3 \<le> length (split_on newline (dumps_indent 0 (JDict kvs)))"
    unfolding sp using nl by simp
  with last show ?thesis by (simp add: file_lines_def Let_def)
qed

text \<open>With no indent the text of a value has no newline: a newline in a string is escaped.\<close>

lemma digit_char_not_newline: "d < 10 \<Longrightarrow> digit_char d \<noteq> newline"
  by (simp add: digit_char_def newline_def char_of_eq_iff take_bit_eq_mod)

lemma str_nat_no_newline: "newline \<notin> set (str_nat n)"
proof (induction n rule: str_nat.induct)
  case (1 n)
  show ?case
  proof (cases "n < 10")
    case True
    then show ?thesis by (subst str_nat.simps) (simp add: digit_char_not_newline [symmetric])
  next
    case False
    have "n mod 10 < 10" by simp
    with False 1 show ?thesis
      by (subst str_nat.simps) (auto simp: digit_char_not_newline [symmetric])
  qed
qed

lemma str_int_no_newline: "newline \<notin> set (str_int i)"
  by (simp add: str_int_def str_nat_no_newline) (simp add: newline_def)

lemma hex_digit_not_newline: "d < 16 \<Longrightarrow> hex_digit d \<noteq> newline"
  by (simp add: hex_digit_def newline_def char_of_eq_iff take_bit_eq_mod)

lemma escape_char_no_newline: "newline \<notin> set (escape_char c)"
proof -
  have "(of_char c :: nat) < 256" by simp
  then have a: "(of_char c :: nat) div 16 < 16" by arith
  have b: "(of_char c :: nat) mod 16 < 16" by simp
  have c: "newline \<noteq> CHR 0x5C \<and> newline \<noteq> CHR 0x22 \<and> newline \<noteq> CHR ''n''
      \<and> newline \<noteq> CHR ''r'' \<and> newline \<noteq> CHR ''t'' \<and> newline \<noteq> CHR ''b''
      \<and> newline \<noteq> CHR ''f'' \<and> newline \<noteq> CHR ''u'' \<and> newline \<noteq> CHR ''0''"
    by (simp add: newline_def)
  show ?thesis
    using hex_digit_not_newline [OF a] hex_digit_not_newline [OF b] c
    by (auto simp: escape_char_def) (simp add: newline_def)
qed

lemma encode_basestring_no_newline: "newline \<notin> set (encode_basestring s)"
  by (auto simp: encode_basestring_def escape_char_no_newline) (simp add: newline_def)

lemma join_no_newline:
  "newline \<notin> set sep \<Longrightarrow> \<forall>x \<in> set xs. newline \<notin> set x \<Longrightarrow> newline \<notin> set (join sep xs)"
  by (induction sep xs rule: join.induct) auto

lemma dumps_no_newline: "newline \<notin> set (dumps v)"
proof (induction v)
  case (JList xs)
  have "newline \<notin> set (join '', '' (map dumps xs))"
    using JList by (intro join_no_newline) (auto simp: newline_def)
  then show ?case by (simp add: newline_def)
next
  case (JDict kvs)
  have "newline \<notin> set (join '', '' (map (\<lambda>(k, v). encode_basestring k @ '': '' @ dumps v) kvs))"
  proof (intro join_no_newline ballI)
    show "newline \<notin> set '', ''" by (simp add: newline_def)
  next
    fix x assume "x \<in> set (map (\<lambda>(k, v). encode_basestring k @ '': '' @ dumps v) kvs)"
    then obtain k v where kv: "(k, v) \<in> set kvs"
      and x: "x = encode_basestring k @ '': '' @ dumps v"
      by auto
    from kv JDict have "newline \<notin> set (dumps v)" by fastforce
    with x show "newline \<notin> set x"
      by (simp add: encode_basestring_no_newline) (simp add: newline_def)
  qed
  then show ?case by (simp add: newline_def)
qed (simp_all add: str_int_no_newline encode_basestring_no_newline, simp_all add: newline_def)

lemma dumps_one_line: "file_lines (dumps v @ [newline]) = [dumps v]"
proof -
  have "split_on newline (dumps v @ newline # [])
      = split_on newline (dumps v) @ split_on newline []"
    by (rule split_on_append)
  then show ?thesis
    by (simp add: file_lines_def split_on_none [OF dumps_no_newline])
qed

lemma sample_record_lines: "length (file_lines (dumps_indent 0 sample_record)) = 10"
  by code_simp

lemma sample_record_truncated: "dumps_indent 0 sample_record \<noteq> ''{''"
  by (simp add: sample_record_def newline_indent_def)

subsection \<open>The shadowed aggregator, and the renderer\<close>

lemma foldl_first:
  "foldl aggregate_step_first a cs =
     \<lparr>all_principles_first = all_principles_first a @ concat (map principles_first cs),
      all_strategies_first = all_strategies_first a @ concat (map strategies_first cs),
      all_metrics_first = all_metrics_first a @ concat (map metrics_first cs),
      all_insights_first = all_insights_first a @ concat (map insights_first cs),
      all_quotes_first = all_quotes_first a @ concat (map quotes_first cs)\<rparr>"
  by (induction cs arbitrary: a) (simp_all add: aggregate_step_first_def)

lemma aggregate_first_eq:
  "aggregate_processed_chunks_first cs =
     \<lparr>investment_principles_first = remdups (concat (map principles_first cs)),
      investment_strategies_first = remdups (concat (map strategies_first cs)),
      quantitative_metrics_first = remdups (concat (map metrics_first cs)),
      key_insights_first = remdups (concat (map insights_first cs)),
      memorable_quotes_first = remdups (concat (map quotes_first cs)),
      total_processed_chunks_first = int (length cs)\<rparr>"
  by (simp add: aggregate_processed_chunks_first_def foldl_first list_of_set_def Let_def)

lemma aggregate_Nil:
  "aggregate_processed_chunks [] =
     \<lparr>investment_principles = [], key_insights = [], memorable_quotes = [],
      quantitative_metrics = [], chunk_summaries = [], total_processed_chunks = 0\<rparr>"
  by (simp add: aggregate_processed_chunks_def aggregate_init_def list_of_set_def)

text \<open>\<^verbatim>\<open>all_metrics.update\<close> keeps one value for a key: the one of the last chunk that has it.\<close>

lemma metrics_last_wins:
  "quantitative_metrics (aggregate_processed_chunks [metric_extraction a, metric_extraction b])
     = [(''ROE'', b)]"
  by (simp add: quantitative_metrics_eq metric_extraction_def dict_update_def)

text \<open>The keys of \<^const>\<open>metrics_digest\<close> differ from one another, as the keys of a dictionary do.\<close>

lemma str_nat_value:
  "foldl (\<lambda>a c. 10 * a + (of_char c - 48)) 0 (str_nat n) = n"
proof (induction n rule: str_nat.induct)
  case (1 n)
  show ?case
  proof (cases "n < 10")
    case True
    then show ?thesis by (subst str_nat.simps) (simp add: digit_char_def)
  next
    case False
    have "n mod 10 < 10" by simp
    then have "(of_char (digit_char (n mod 10)) :: nat) = 48 + n mod 10"
      by (simp add: digit_char_def)
    with False 1 show ?thesis
      by (subst str_nat.simps) simp
  qed
qed

lemma str_nat_inj:
  assumes "str_nat a = str_nat b"
  shows "a = b"
proof -
  have "a = foldl (\<lambda>a c. 10 * a + (of_char c - 48)) 0 (str_nat a)"
    by (simp only: str_nat_value)
  also have "\<dots> = foldl (\<lambda>a c. 10 * a + (of_char c - 48)) 0 (str_nat b)"
    by (simp only: assms)
  also have "\<dots> = b"
    by (simp only: str_nat_value)
  finally show ?thesis .
qed

lemma metrics_digest_keys:
  "distinct (map fst (quantitative_metrics (metrics_digest n)))"
  by (auto simp: metrics_digest_def distinct_map comp_def inj_on_def dest: str_nat_inj)

lemma length_join_ge: "\<forall>x \<in> set xs. x \<noteq> [] \<Longrightarrow> length xs \<le> length (join sep xs)"
proof (induction sep xs rule: join.induct)
  case (1 sep)
  show ?case by simp
next
  case (2 sep x)
  then show ?case by (cases x) auto
next
  case (3 sep x y ys)
  then have "x \<noteq> []" by simp
  then have "1 \<le> length x" by (cases x) auto
  with 3 show ?case by simp
qed

lemma metric_lines_nonempty: "\<forall>x \<in> set (metric_lines d). x \<noteq> []"
  by (auto simp: metric_lines_def bullet_def)

lemma condensed_length_ge:
  "length (quantitative_metrics d) \<le> length (get_condensed_knowledge_for_prompt (Some d))"
proof -
  have "length (metric_lines d) \<le> length (join [newline] (metric_lines d))"
    by (rule length_join_ge) (rule metric_lines_nonempty)
  then show ?thesis
    by (simp add: get_condensed_knowledge_for_prompt_def metric_lines_def)
qed

section \<open>The claims\<close>

text \<open>
  C1. For every text, \<^verbatim>\<open>chunk_knowledge_base\<close> is claimed to terminate, also when the
  overlap is not below the chunk size, as with 100 and 100. The code does the opposite:
  whenever the text has at least one token and the overlap is positive (100 and 100, and
  also the 8000 and 200 of \<^verbatim>\<open>__init__\<close>), the loop never returns.
\<close>

theorem chunk_knowledge_base_never_returns:
  assumes "encode enc T \<noteq> []" and "0 < overlap_tokens self"
  shows "chunk_knowledge_base enc self T = None"
  unfolding chunk_knowledge_base_def using assms by (intro chunk_loop_diverges) simp_all

theorem chunk_knowledge_base_never_returns_witness:
  "encode \<lparr>encode = id, decode = id\<rparr> ''a'' \<noteq> []
   \<and> 0 < overlap_tokens (init_service\<lparr>max_tokens_per_chunk := 100, overlap_tokens := 100\<rparr>)
   \<and> chunk_knowledge_base \<lparr>encode = id, decode = id\<rparr>
        (init_service\<lparr>max_tokens_per_chunk := 100, overlap_tokens := 100\<rparr>) ''a'' = None"
  using chunk_knowledge_base_never_returns
    [of "\<lparr>encode = id, decode = id\<rparr>" "''a''"
        "init_service\<lparr>max_tokens_per_chunk := 100, overlap_tokens := 100\<rparr>"]
  by (simp add: init_service_def)

text \<open>
  C2. A text of 25,000 tokens, chunked with the 8000 and 200 of \<^verbatim>\<open>__init__\<close>, is claimed
  to give exactly 4 chunks. The code never returns on it (the defect of C1). The second
  half of the claim holds: four extractions whose principles are
  \<^verbatim>\<open>["Circle of Competence"]\<close> aggregate to a digest with that one principle and a
  count of 4.
\<close>

theorem end_to_end_25000_tokens:
  assumes "length (encode enc T) = 25000"
    and "length cs = 4"
    and "\<forall>c \<in> set cs. principles c = ''Circle of Competence'' # []"
  shows "chunk_knowledge_base enc init_service T = None
     \<and> set (investment_principles (aggregate_processed_chunks cs)) = {''Circle of Competence''}
     \<and> length (investment_principles (aggregate_processed_chunks cs)) = 1
     \<and> total_processed_chunks (aggregate_processed_chunks cs) = 4"
proof -
  have "chunk_knowledge_base enc init_service T = None"
    unfolding chunk_knowledge_base_def using assms(1)
    by (intro chunk_loop_diverges) (simp_all add: init_service_def)
  moreover have c: "concat (map principles cs) = replicate 4 ''Circle of Competence''"
  proof -
    have "map principles cs = replicate (length cs) [''Circle of Competence'']"
      using assms(3) by (simp add: map_replicate_const [symmetric] cong: map_cong)
    then show ?thesis using assms(2) by (simp add: numeral_eq_Suc)
  qed
  moreover have "remdups (replicate 4 ''Circle of Competence'') = [''Circle of Competence'']"
    by (simp add: numeral_eq_Suc)
  ultimately show ?thesis
    using assms(2) by (simp add: investment_principles_eq total_processed_chunks_eq)
qed

theorem end_to_end_25000_tokens_witness:
  "length (encode \<lparr>encode = \<lambda>_. replicate 25000 (0::nat), decode = \<lambda>_. []\<rparr> ''corpus'') = 25000
   \<and> chunk_knowledge_base \<lparr>encode = \<lambda>_. replicate 25000 (0::nat), decode = \<lambda>_. []\<rparr>
        init_service ''corpus'' = None
   \<and> set (investment_principles (aggregate_processed_chunks
        (replicate 4 \<lparr>chunk_index = 0, summary = [], principles = [''Circle of Competence''],
           insights = [], quotes = [], metrics = []\<rparr>))) = {''Circle of Competence''}
   \<and> total_processed_chunks (aggregate_processed_chunks
        (replicate 4 \<lparr>chunk_index = 0, summary = [], principles = [''Circle of Competence''],
           insights = [], quotes = [], metrics = []\<rparr>)) = 4"
  using end_to_end_25000_tokens
    [of "\<lparr>encode = \<lambda>_. replicate 25000 (0::nat), decode = \<lambda>_. []\<rparr>" "''corpus''"
        "replicate 4 \<lparr>chunk_index = 0, summary = [], principles = [''Circle of Competence''],
           insights = [], quotes = [], metrics = []\<rparr>"]
  by simp

text \<open>
  C3. For every response, the parser scans the lines with a cursor that a header line
  sets, and puts the item of every bullet line (\<^verbatim>\<open>- \<close> at the start of the stripped line)
  into the list of the section in force. Hence each section's list is \<^const>\<open>collected\<close>: the
  items of the bullet lines that stand after a header of that section with no other
  header in between, whatever the order of the headers and also when a section has no
  bullet. A header is matched without regard to case: a line that starts with
  \<^verbatim>\<open>PRINCIPLES:\<close>, \<^verbatim>\<open>STRATEGIES:\<close>, \<^verbatim>\<open>METRICS:\<close>, \<^verbatim>\<open>INSIGHTS:\<close> or \<^verbatim>\<open>QUOTES:\<close> with each letter in
  either case is a header of that section, and an ASCII line is a header of a section
  only then. The lines before the first header change nothing, and a line that is
  neither a header nor a bullet changes nothing, in the middle or at the end.
\<close>

theorem parse_structured_response_collects:
  "parse_structured_response to_upper response s = collected to_upper s (split_on 0x0A response)
   \<and> (ascii_upper_table to_upper \<and> matches_ignoring_case (keyword s) line \<longrightarrow>
        header_of to_upper line = Some s)
   \<and> (ascii_upper_table to_upper \<and> (\<forall>c \<in> set line. c < 128)
        \<and> header_of to_upper line = Some s \<longrightarrow> matches_ignoring_case (keyword s) line)
   \<and> ((\<forall>l \<in> set (split_on 0x0A pre). \<not> is_header to_upper l) \<longrightarrow>
        parse_structured_response to_upper (pre @ 0x0A # rest)
          = parse_structured_response to_upper rest)
   \<and> (0x0A \<notin> set l \<and> \<not> is_header to_upper l \<and> \<not> startswith (strip l) (ascii ''- '') \<longrightarrow>
        parse_structured_response to_upper (a @ 0x0A # l @ 0x0A # b)
          = parse_structured_response to_upper (a @ 0x0A # b)
        \<and> parse_structured_response to_upper (a @ 0x0A # l)
          = parse_structured_response to_upper a)"
proof (intro conjI impI)
  show "parse_structured_response to_upper response s
      = collected to_upper s (split_on 0x0A response)"
    by (simp add: parse_structured_response_def collected_def parse_lines_eq in_force_eq)
next
  assume "ascii_upper_table to_upper \<and> matches_ignoring_case (keyword s) line"
  then show "header_of to_upper line = Some s"
    by (simp add: header_of_ignoring_case)
next
  assume "ascii_upper_table to_upper \<and> (\<forall>c \<in> set line. c < 128)
      \<and> header_of to_upper line = Some s"
  then show "matches_ignoring_case (keyword s) line"
    using header_of_ascii_matches [of to_upper line s] by blast
next
  assume "\<forall>l \<in> set (split_on 0x0A pre). \<not> is_header to_upper l"
  then show "parse_structured_response to_upper (pre @ 0x0A # rest)
      = parse_structured_response to_upper rest"
    using parse_lines_no_header [of "split_on 0x0A pre" to_upper "\<lambda>_. []"]
    by (simp add: parse_structured_response_def split_on_append parse_lines_append)
next
  assume h: "0x0A \<notin> set l \<and> \<not> is_header to_upper l \<and> \<not> startswith (strip l) (ascii ''- '')"
  then have l: "split_on 0x0A l = [l]" by (simp add: split_on_none)
  from h have nb: "\<not> is_bullet to_upper l" by (simp add: is_bullet_def)
  from h nb have skip: "\<And>c r ls. parse_lines to_upper c r (l # ls) = parse_lines to_upper c r ls"
    using parse_lines_skip [of to_upper l] by blast
  from h have cur: "\<And>c. cursor_step to_upper c l = c"
    using header_of_None_iff [of to_upper l] by (simp add: cursor_step_def)
  have "split_on 0x0A (a @ 0x0A # l @ 0x0A # b) = split_on 0x0A a @ l # split_on 0x0A b"
    using split_on_append [of "0x0A" a "l @ 0x0A # b"] split_on_append [of "0x0A" l b] l
    by simp
  then show "parse_structured_response to_upper (a @ 0x0A # l @ 0x0A # b)
      = parse_structured_response to_upper (a @ 0x0A # b)"
    by (simp add: parse_structured_response_def split_on_append parse_lines_append skip)
  have "split_on 0x0A (a @ 0x0A # l) = split_on 0x0A a @ [l]"
    using split_on_append [of "0x0A" a l] l by simp
  then show "parse_structured_response to_upper (a @ 0x0A # l)
      = parse_structured_response to_upper a"
    by (simp add: parse_structured_response_def parse_lines_append skip parse_lines.simps(1))
qed

theorem parse_structured_response_collects_witness:
  "collected sample_table Quotes (split_on 0x0A sample_response) = [ascii ''q'']
   \<and> header_of sample_table (ascii ''QuOtEs: x'') = Some Quotes
   \<and> matches_ignoring_case (keyword Quotes) (ascii ''QuOtEs: x'')
   \<and> parse_structured_response sample_table sample_response
       = parse_structured_response sample_table
           (ascii ''quotes: x'' @ 0x0A # 0xA0 # ascii ''- q '' @ 0x0A # ascii ''Principles:'')"
proof -
  let ?rest = "ascii ''quotes: x'' @ 0x0A # 0xA0 # ascii ''- q '' @ 0x0A
       # ascii ''Principles:'' @ 0x0A # ascii ''end''"
  let ?body = "ascii ''quotes: x'' @ 0x0A # 0xA0 # ascii ''- q '' @ 0x0A # ascii ''Principles:''"
  note t = parse_structured_response_collects
      [of sample_table sample_response Quotes "ascii ''QuOtEs: x''" "ascii ''- a''" ?rest
        "ascii ''end''" ?body "[]"]
  have r: "sample_response = ascii ''- a'' @ 0x0A # ?rest"
    "?rest = ?body @ 0x0A # ascii ''end''"
    by (simp_all add: sample_response_def)
  note t1 = t [THEN conjunct1]
  note t2 = t [THEN conjunct2, THEN conjunct1]
  note t3 = t [THEN conjunct2, THEN conjunct2, THEN conjunct1]
  note t4 = t [THEN conjunct2, THEN conjunct2, THEN conjunct2, THEN conjunct1]
  note t5 = t [THEN conjunct2, THEN conjunct2, THEN conjunct2, THEN conjunct2]
  from t1 sample_parsed(1)
  have a: "collected sample_table Quotes (split_on 0x0A sample_response) = [ascii ''q'']"
    by (simp only:)
  from sample_table_ascii sample_lines(5)
  have b: "header_of sample_table (ascii ''QuOtEs: x'') = Some Quotes"
    by (intro t2 [rule_format] conjI)
  from sample_table_ascii sample_lines(6) b
  have c: "matches_ignoring_case (keyword Quotes) (ascii ''QuOtEs: x'')"
    by (intro t3 [rule_format] conjI)
  from sample_lines(1)
  have d: "parse_structured_response sample_table (ascii ''- a'' @ 0x0A # ?rest)
      = parse_structured_response sample_table ?rest"
    by (rule t4 [THEN mp])
  from sample_lines(2,3,4)
  have "parse_structured_response sample_table (?body @ 0x0A # ascii ''end'' @ 0x0A # [])
        = parse_structured_response sample_table (?body @ 0x0A # [])
      \<and> parse_structured_response sample_table (?body @ 0x0A # ascii ''end'')
        = parse_structured_response sample_table ?body"
    by (intro t5 [rule_format] conjI)
  then have e: "parse_structured_response sample_table (?body @ 0x0A # ascii ''end'')
      = parse_structured_response sample_table ?body" by (rule conjunct2)
  from d e have "parse_structured_response sample_table sample_response
      = parse_structured_response sample_table ?body" by (simp only: r)
  with a b c show ?thesis by (intro conjI)
qed


text \<open>
  C6. \<^verbatim>\<open>save_processed_knowledge\<close> is claimed to write the whole record as one
  self-describing record on one line of the file. The method that runs (lines 542-545)
  writes the whole record as one JSON document, but with \<^verbatim>\<open>indent=2\<close>: every record that
  is a dictionary with an entry takes at least three lines. The shadowed first
  definition (lines 313-320), whose docstring names the JSON Lines format, writes
  exactly one line.
\<close>

theorem save_processed_knowledge_lines:
  "(write_error fs filepath = None \<and> processed_knowledge self = JDict kvs \<and> kvs \<noteq> [] \<longrightarrow>
      (\<exists>fs'. save_processed_knowledge fs self filepath = Inr fs'
         \<and> files fs' filepath = Inr (dumps_indent 0 (JDict kvs))
         \<and> 3 \<le> length (file_lines (dumps_indent 0 (JDict kvs)))))
   \<and> (with_suffix filepath ''.jsonl'' = Inr p \<and> write_error fs p = None \<longrightarrow>
      (\<exists>fs'. save_processed_knowledge_first with_suffix fs self filepath = Inr fs'
         \<and> files fs' p = Inr (dumps (processed_knowledge self) @ [newline])
         \<and> length (file_lines (dumps (processed_knowledge self) @ [newline])) = 1))"
  by (auto simp: save_processed_knowledge_def save_processed_knowledge_first_def
      dumps_indent_dict_lines dumps_one_line simp del: dumps_indent.simps dumps.simps)

theorem save_processed_knowledge_lines_witness:
  "(\<exists>fs'. save_processed_knowledge empty_fs (init_service\<lparr>processed_knowledge := sample_record\<rparr>)
             ''processed_knowledge.json'' = Inr fs'
      \<and> files fs' ''processed_knowledge.json'' = Inr (dumps_indent 0 sample_record))
   \<and> 3 \<le> length (file_lines (dumps_indent 0 sample_record))
   \<and> length (file_lines (dumps_indent 0 sample_record)) = 10
   \<and> length (file_lines (dumps sample_record @ [newline])) = 1"
proof -
  let ?self = "init_service\<lparr>processed_knowledge := sample_record\<rparr>"
  let ?kvs = "[(''aggregated_knowledge'',
                  JDict [(''investment_principles'', JList [JStr ''Moat''])]),
               (''processing_stats'', JDict [(''total_tokens'', JInt 5)])]"
  note t = save_processed_knowledge_lines
      [of empty_fs "''processed_knowledge.json''" ?self ?kvs
        "\<lambda>path suffix. Inr ''processed_knowledge.jsonl''" "''processed_knowledge.jsonl''"]
  have r: "sample_record = JDict ?kvs"
    by (simp only: sample_record_def)
  have h1: "write_error empty_fs ''processed_knowledge.json'' = None
      \<and> processed_knowledge ?self = JDict ?kvs \<and> ?kvs \<noteq> []"
    by (simp add: empty_fs_def r)
  have h2: "(\<lambda>path suffix. Inr ''processed_knowledge.jsonl'' :: exn + string)
        ''processed_knowledge.json'' ''.jsonl'' = Inr ''processed_knowledge.jsonl''
      \<and> write_error empty_fs ''processed_knowledge.jsonl'' = None"
    by (simp add: empty_fs_def)
  have p: "processed_knowledge ?self = sample_record" by simp
  from t h1 have a: "\<exists>fs'. save_processed_knowledge empty_fs ?self ''processed_knowledge.json''
        = Inr fs'
      \<and> files fs' ''processed_knowledge.json'' = Inr (dumps_indent 0 (JDict ?kvs))
      \<and> 3 \<le> length (file_lines (dumps_indent 0 (JDict ?kvs)))"
    by blast
  from t h2 have b: "\<exists>fs'. save_processed_knowledge_first
        (\<lambda>path suffix. Inr ''processed_knowledge.jsonl'') empty_fs ?self
        ''processed_knowledge.json'' = Inr fs'
      \<and> files fs' ''processed_knowledge.jsonl''
          = Inr (dumps (processed_knowledge ?self) @ [newline])
      \<and> length (file_lines (dumps (processed_knowledge ?self) @ [newline])) = 1"
    by blast
  from a have a': "(\<exists>fs'. save_processed_knowledge empty_fs ?self ''processed_knowledge.json''
        = Inr fs'
      \<and> files fs' ''processed_knowledge.json'' = Inr (dumps_indent 0 sample_record))
      \<and> 3 \<le> length (file_lines (dumps_indent 0 sample_record))"
    unfolding r by blast
  from b have b': "length (file_lines (dumps sample_record @ [newline])) = 1"
    unfolding p by blast
  from a' b' sample_record_lines show ?thesis by blast
qed





text \<open>
  C10. \<^verbatim>\<open>load_processed_knowledge\<close> changes the service only when it succeeds: when it
  returns \<^verbatim>\<open>False\<close> the service is as before the call, and when it returns \<^verbatim>\<open>True\<close> the
  service differs from before in \<^verbatim>\<open>processed_knowledge\<close> only, which is the value
  \<^verbatim>\<open>json.load\<close> read from the file.
\<close>

theorem load_processed_knowledge_atomic:
  "(fst (load_processed_knowledge json_load fs self filepath) = False \<longrightarrow>
      snd (load_processed_knowledge json_load fs self filepath) = self)
   \<and> (fst (load_processed_knowledge json_load fs self filepath) = True \<longrightarrow>
      (\<exists>content v. files fs filepath = Inr content \<and> json_load content = Inr v
         \<and> snd (load_processed_knowledge json_load fs self filepath)
             = self\<lparr>processed_knowledge := v\<rparr>))"
  by (auto simp: load_processed_knowledge_def load_try_def split: sum.splits)

theorem load_processed_knowledge_atomic_witness:
  "fst (load_processed_knowledge sample_json_load
          (empty_fs\<lparr>files := (files empty_fs)(''cache.json'' := Inr ''{'')\<rparr>)
          (init_service\<lparr>processed_knowledge := sample_record\<rparr>) ''cache.json'') = False
   \<and> snd (load_processed_knowledge sample_json_load
          (empty_fs\<lparr>files := (files empty_fs)(''cache.json'' := Inr ''{'')\<rparr>)
          (init_service\<lparr>processed_knowledge := sample_record\<rparr>) ''cache.json'')
       = init_service\<lparr>processed_knowledge := sample_record\<rparr>
   \<and> fst (load_processed_knowledge sample_json_load
          (empty_fs\<lparr>files := (files empty_fs)
             (''cache.json'' := Inr (dumps_indent 0 sample_record))\<rparr>)
          init_service ''cache.json'') = True
   \<and> snd (load_processed_knowledge sample_json_load
          (empty_fs\<lparr>files := (files empty_fs)
             (''cache.json'' := Inr (dumps_indent 0 sample_record))\<rparr>)
          init_service ''cache.json'')
       = init_service\<lparr>processed_knowledge := sample_record\<rparr>"
proof -
  let ?bad = "empty_fs\<lparr>files := (files empty_fs)(''cache.json'' := Inr ''{'')\<rparr>"
  let ?good = "empty_fs\<lparr>files := (files empty_fs)
      (''cache.json'' := Inr (dumps_indent 0 sample_record))\<rparr>"
  let ?self = "init_service\<lparr>processed_knowledge := sample_record\<rparr>"
  have f: "fst (load_processed_knowledge sample_json_load ?bad ?self ''cache.json'') = False"
    using sample_record_truncated
    by (simp add: load_processed_knowledge_def load_try_def sample_json_load_def
        del: dumps_indent.simps)
  have g: "fst (load_processed_knowledge sample_json_load ?good init_service ''cache.json'')
      = True"
    by (simp add: load_processed_knowledge_def load_try_def sample_json_load_def
        del: dumps_indent.simps)
  have h: "sample_json_load (dumps_indent 0 sample_record) = Inr sample_record"
    by (simp add: sample_json_load_def del: dumps_indent.simps)
  from load_processed_knowledge_atomic [of sample_json_load ?bad ?self "''cache.json''"] f
  have a: "snd (load_processed_knowledge sample_json_load ?bad ?self ''cache.json'') = ?self"
    by blast
  from load_processed_knowledge_atomic [of sample_json_load ?good init_service "''cache.json''"] g
  obtain content v where "files ?good ''cache.json'' = Inr content"
    and "sample_json_load content = Inr v"
    and "snd (load_processed_knowledge sample_json_load ?good init_service ''cache.json'')
        = init_service\<lparr>processed_knowledge := v\<rparr>"
    by blast
  with h have b: "snd (load_processed_knowledge sample_json_load ?good init_service ''cache.json'')
      = init_service\<lparr>processed_knowledge := sample_record\<rparr>"
    by (simp del: dumps_indent.simps)
  from f g a b show ?thesis by blast
qed

text \<open>
  C4. When the call of the agent or the reading of its answer raises,
  \<^verbatim>\<open>process_knowledge_chunk\<close> is claimed to return a failed extraction with the chunk's
  index, a failure flag, an error message and the five list fields present and empty,
  and never to propagate the exception. The code returns a dictionary of three entries:
  the index, the message and the flag. The five list fields are not in it.
\<close>

theorem process_knowledge_chunk_failure_counterexample:
  "process_knowledge_chunk_try init_service ''text'' 0
     = Inl (no_attribute ''KnowledgeChunkingService'' ''agent'')
   \<and> map_of (process_knowledge_chunk init_service ''text'' 0) ''principles'' = None
   \<and> \<not> (map_of (process_knowledge_chunk init_service ''text'' 0) ''principles''
          = Some (JList []))"
  by (simp add: process_knowledge_chunk_def process_knowledge_chunk_try_def init_service_def
      Let_def)

text \<open>
  C4, amended. Whenever the body of the \<^verbatim>\<open>try\<close> raises (no agent set, the agent's call
  raises, or its answer is not a dictionary), \<^verbatim>\<open>process_knowledge_chunk\<close> returns exactly
  the dictionary with the chunk's index, the message of the exception and the flag
  \<^verbatim>\<open>processed = False\<close>. None of the five list fields is a key of it, so a reader gets the
  empty list for each only through a default. The method returns a dictionary for every
  input: the exception does not leave it.
\<close>

theorem process_knowledge_chunk_failure:
  "(process_knowledge_chunk_try self chunk i = Inl e \<longrightarrow>
      process_knowledge_chunk self chunk i
        = [(''chunk_index'', JInt i), (''error'', JStr (exn_message e)),
           (''processed'', JBool False)]
      \<and> (\<forall>k \<in> set list_fields.
            map_of (process_knowledge_chunk self chunk i) k = None
            \<and> dict_get (process_knowledge_chunk self chunk i) k (JList []) = JList []))
   \<and> (agent self = None \<longrightarrow>
        process_knowledge_chunk_try self chunk i
          = Inl (no_attribute ''KnowledgeChunkingService'' ''agent''))
   \<and> (agent self = Some run \<and> run (processing_prompt chunk i) = Inl e' \<longrightarrow>
        process_knowledge_chunk_try self chunk i = Inl e')
   \<and> (agent self = Some run \<and> run (processing_prompt chunk i) = Inr result
        \<and> (\<forall>d. result \<noteq> JDict d) \<longrightarrow>
        process_knowledge_chunk_try self chunk i
          = Inl (no_attribute (py_type_name result) ''get''))"
  by (auto simp: process_knowledge_chunk_def process_knowledge_chunk_try_def Let_def
      list_fields_def dict_get_def split: json.splits)

theorem process_knowledge_chunk_failure_witness:
  "process_knowledge_chunk (init_service\<lparr>agent := Some failing_agent\<rparr>) ''text'' 2
     = [(''chunk_index'', JInt 2), (''error'', JStr ''timed out''), (''processed'', JBool False)]
   \<and> map_of (process_knowledge_chunk (init_service\<lparr>agent := Some failing_agent\<rparr>) ''text'' 2)
        ''strategies'' = None
   \<and> process_knowledge_chunk_try init_service ''text'' 2
        = Inl (no_attribute ''KnowledgeChunkingService'' ''agent'')
   \<and> process_knowledge_chunk_try (init_service\<lparr>agent := Some text_agent\<rparr>) ''text'' 2
        = Inl (no_attribute ''str'' ''get'')"
proof -
  let ?self = "init_service\<lparr>agent := Some failing_agent\<rparr>"
  let ?e = "Exn ''TimeoutError'' ''timed out''"
  note t = process_knowledge_chunk_failure
      [of ?self "''text''" 2 ?e failing_agent ?e "JNull"]
  have h: "agent ?self = Some failing_agent
      \<and> failing_agent (processing_prompt ''text'' 2) = Inl ?e"
    by (simp add: failing_agent_def)
  from t h have a: "process_knowledge_chunk_try ?self ''text'' 2 = Inl ?e" by blast
  from t a have b: "process_knowledge_chunk ?self ''text'' 2
      = [(''chunk_index'', JInt 2), (''error'', JStr (exn_message ?e)),
         (''processed'', JBool False)]
      \<and> (\<forall>k \<in> set list_fields. map_of (process_knowledge_chunk ?self ''text'' 2) k = None
            \<and> dict_get (process_knowledge_chunk ?self ''text'' 2) k (JList []) = JList [])"
    by blast
  have "''strategies'' \<in> set list_fields" by (simp add: list_fields_def)
  with b have c: "map_of (process_knowledge_chunk ?self ''text'' 2) ''strategies'' = None"
    by blast
  have d: "process_knowledge_chunk_try init_service ''text'' 2
      = Inl (no_attribute ''KnowledgeChunkingService'' ''agent'')"
    using process_knowledge_chunk_failure [of init_service "''text''" 2 ?e failing_agent ?e JNull]
    by (simp add: init_service_def)
  have "process_knowledge_chunk_try (init_service\<lparr>agent := Some text_agent\<rparr>) ''text'' 2
      = Inl (no_attribute (py_type_name (JStr ''Buy wonderful companies at fair prices.'')) ''get'')"
    using process_knowledge_chunk_failure
      [of "init_service\<lparr>agent := Some text_agent\<rparr>" "''text''" 2 ?e text_agent ?e
        "JStr ''Buy wonderful companies at fair prices.''"]
    by (simp add: text_agent_def)
  then have e: "process_knowledge_chunk_try (init_service\<lparr>agent := Some text_agent\<rparr>) ''text'' 2
      = Inl (no_attribute ''str'' ''get'')"
    by (simp add: py_type_name_def)
  from b c d e show ?thesis by simp
qed

text \<open>
  C5. The aggregator is claimed to give a digest whose five fields (principles,
  strategies, metrics, insights, quotes) are each the union, as a set of strings, of
  that field over the extractions, and an all-empty digest for no extraction. For the
  aggregator that runs (lines 472-501) this holds of principles, insights and quotes,
  and the empty input gives the empty digest. It fails for the other two: the digest has
  no strategies at all, and the metrics are a dictionary merged with \<^verbatim>\<open>update\<close>, so of
  two extractions that give ROE the values 15% and 20% only the last survives. The
  shadowed first definition (lines 240-269) gives the union for all five.
\<close>

theorem aggregate_processed_chunks_fields:
  "set (investment_principles (aggregate_processed_chunks cs)) = (\<Union>c \<in> set cs. set (principles c))
   \<and> set (key_insights (aggregate_processed_chunks cs)) = (\<Union>c \<in> set cs. set (insights c))
   \<and> set (memorable_quotes (aggregate_processed_chunks cs)) = (\<Union>c \<in> set cs. set (quotes c))
   \<and> distinct (investment_principles (aggregate_processed_chunks cs))
   \<and> distinct (key_insights (aggregate_processed_chunks cs))
   \<and> distinct (memorable_quotes (aggregate_processed_chunks cs))
   \<and> aggregate_processed_chunks [] =
       \<lparr>investment_principles = [], key_insights = [], memorable_quotes = [],
        quantitative_metrics = [], chunk_summaries = [], total_processed_chunks = 0\<rparr>
   \<and> quantitative_metrics
        (aggregate_processed_chunks [metric_extraction ''15%'', metric_extraction ''20%''])
       = [(''ROE'', ''20%'')]
   \<and> set (investment_principles_first (aggregate_processed_chunks_first fs))
       = (\<Union>c \<in> set fs. set (principles_first c))
   \<and> set (investment_strategies_first (aggregate_processed_chunks_first fs))
       = (\<Union>c \<in> set fs. set (strategies_first c))
   \<and> set (quantitative_metrics_first (aggregate_processed_chunks_first fs))
       = (\<Union>c \<in> set fs. set (metrics_first c))
   \<and> set (key_insights_first (aggregate_processed_chunks_first fs))
       = (\<Union>c \<in> set fs. set (insights_first c))
   \<and> set (memorable_quotes_first (aggregate_processed_chunks_first fs))
       = (\<Union>c \<in> set fs. set (quotes_first c))"
  by (simp add: investment_principles_eq key_insights_eq memorable_quotes_eq aggregate_Nil
      metrics_last_wins aggregate_first_eq)

theorem aggregate_processed_chunks_fields_witness:
  "set (investment_principles (aggregate_processed_chunks
          [\<lparr>chunk_index = 0, summary = [], principles = [''Moat'', ''Margin of Safety''],
             insights = [], quotes = [], metrics = []\<rparr>,
           \<lparr>chunk_index = 1, summary = [], principles = [''Moat''],
             insights = [], quotes = [], metrics = []\<rparr>]))
     = {''Moat'', ''Margin of Safety''}
   \<and> quantitative_metrics
        (aggregate_processed_chunks [metric_extraction ''15%'', metric_extraction ''20%''])
       = [(''ROE'', ''20%'')]"
  using aggregate_processed_chunks_fields
    [of "[\<lparr>chunk_index = 0, summary = [], principles = [''Moat'', ''Margin of Safety''],
             insights = [], quotes = [], metrics = []\<rparr>,
          \<lparr>chunk_index = 1, summary = [], principles = [''Moat''],
             insights = [], quotes = [], metrics = []\<rparr>]" "[]"]
  by auto

text \<open>
  C9. \<^verbatim>\<open>get_condensed_knowledge_for_prompt\<close> is claimed to render each of the five
  sections as a bulleted list with a fixed cap on its items. The method that runs (lines
  503-529) caps the principles at 20, the insights at 15 and the quotes at 10. It renders
  no strategies, and it renders every entry of the metrics with no cap: a digest of \<open>n\<close>
  metrics gives \<open>n\<close> metric lines, and a text of \<open>n\<close> characters at least. The shadowed first
  definition (lines 271-300) caps all five sections, at 25, 20, 15, 20 and 10. Before
  any processing the method returns the empty string.
\<close>

theorem get_condensed_knowledge_sections:
  "length (principle_lines d) \<le> 20 \<and> length (insight_lines d) \<le> 15
   \<and> length (quote_lines d) \<le> 10
   \<and> length (metric_lines d) = length (quantitative_metrics d)
   \<and> distinct (map fst (quantitative_metrics (metrics_digest n)))
   \<and> length (metric_lines (metrics_digest n)) = n
   \<and> n \<le> length (get_condensed_knowledge_for_prompt (Some (metrics_digest n)))
   \<and> get_condensed_knowledge_for_prompt None = []
   \<and> map length (section_lines_first f)
       = [min 25 (length (investment_principles_first f)),
          min 20 (length (investment_strategies_first f)),
          min 15 (length (quantitative_metrics_first f)),
          min 20 (length (key_insights_first f)),
          min 10 (length (memorable_quotes_first f))]"
proof -
  have "n \<le> length (get_condensed_knowledge_for_prompt (Some (metrics_digest n)))"
    using condensed_length_ge [of "metrics_digest n"] by (simp add: metrics_digest_def)
  moreover have "length (metric_lines (metrics_digest n)) = n"
    by (simp add: metric_lines_def metrics_digest_def)
  ultimately show ?thesis
    using metrics_digest_keys [of n]
    by (simp add: principle_lines_def insight_lines_def quote_lines_def metric_lines_def
        get_condensed_knowledge_for_prompt_def section_lines_first_def min.commute)
qed

theorem get_condensed_knowledge_sections_witness:
  "length (metric_lines (metrics_digest 26)) = 26
   \<and> 26 \<le> length (get_condensed_knowledge_for_prompt (Some (metrics_digest 26)))
   \<and> length (principle_lines (metrics_digest 26)) \<le> 20"
  using get_condensed_knowledge_sections [of "metrics_digest 26" 26]
  by blast

end
